theory Spec2Isabelle
  imports Complex_Main "HOL-Library.Multiset"
begin

section \<open>The swap bots of the repository\<close>

text \<open>
  The repository holds two scripts. \<^verbatim>\<open>multi_protocol_bot.ts\<close> tries a chain of four
  swap providers for every swap and keeps a daily transaction counter. The older
  single-provider script (Jupiter only) has no provider chain and no counter, but wraps
  its two HTTP calls in \<^verbatim>\<open>fetchWithRetry\<close>. Both drive the same schedule loop.

  Everything the scripts take from outside (HTTP answers, the broadcast, the
  pseudo-random generator, latencies, the rounding of double arithmetic) is an oracle of
  type \<open>env\<close>; what they do to the outside is appended to a trace of events.
\<close>

subsection \<open>Errors, wallets, providers\<close>

text \<open>
  A thrown value as the catch blocks read it: \<^verbatim>\<open>e.message\<close> (which may be undefined) and
  the JSON text of \<^verbatim>\<open>e.response.data\<close> when that is present and truthy.
\<close>

record js_error =
  message :: "string option"
  response_data :: "string option"

text \<open>
  \<^verbatim>\<open>WalletContext\<close>: the key pair is represented by its public key in base 58, the proxy
  agent by its specification. \<^verbatim>\<open>label\<close> is the first six characters of the public key.
\<close>

record wallet =
  pubkey :: string
  proxy :: "string option"

definition label :: "wallet \<Rightarrow> string" where
  "label w = take 6 (pubkey w)"

text \<open>\<^verbatim>\<open>SwapProvider\<close>: the name and the availability flag; \<^verbatim>\<open>getSwap\<close> is answered by the oracle.\<close>

record provider =
  name :: string
  available :: bool

text \<open>The three OKX settings of the process environment, each possibly absent.\<close>

record okx_config =
  OKX_API_KEY :: "string option"
  OKX_SECRET_KEY :: "string option"
  OKX_PASSPHRASE :: "string option"

definition truthy :: "string option \<Rightarrow> bool" where
  "truthy v = (case v of None \<Rightarrow> False | Some x \<Rightarrow> x \<noteq> [])"

definition DFlowProvider :: provider where
  "DFlowProvider = \<lparr>name = ''DFlow'', available = True\<rparr>"

definition RaydiumProvider :: provider where
  "RaydiumProvider = \<lparr>name = ''Raydium'', available = True\<rparr>"

definition JupiterProvider :: provider where
  "JupiterProvider = \<lparr>name = ''Jupiter'', available = True\<rparr>"

definition OKXDexProvider :: "okx_config \<Rightarrow> provider" where
  "OKXDexProvider cfg =
     \<lparr>name = ''OKX DEX'',
      available = (truthy (OKX_API_KEY cfg) \<and> truthy (OKX_SECRET_KEY cfg) \<and> truthy (OKX_PASSPHRASE cfg))\<rparr>"

subsection \<open>Constants\<close>

record mint_entry =
  mint :: string
  mint_name :: string

definition MINTS_SOL :: string where
  "MINTS_SOL = ''So11111111111111111111111111111111111111112''"

definition PROTOCOL_MINTS :: "mint_entry list" where
  "PROTOCOL_MINTS =
     [\<lparr>mint = ''J1toso1uCk3RLmjorhTtrVwY9HJ7X8V9yYac6Y7kGCPn'', mint_name = ''JitoSOL''\<rparr>,
      \<lparr>mint = ''mSoLzYCxHdYgdzU16g5QSh3i5K3z3KZK7ytfqcJm7So'', mint_name = ''mSOL''\<rparr>,
      \<lparr>mint = ''bSo13r4TkiE4KumL71LsHTPpL2euBYLFx6h9HP3piy1'', mint_name = ''bSOL''\<rparr>]"

definition LAMPORTS_PER_SOL :: rat where
  "LAMPORTS_PER_SOL = 1000000000"

subsection \<open>The outside world\<close>

text \<open>
  What one pass through the \<^verbatim>\<open>try\<close> block of \<^verbatim>\<open>executeSwap\<close> meets: \<^verbatim>\<open>getSwap\<close>,
  \<^verbatim>\<open>transaction.sign\<close> or \<^verbatim>\<open>sendRawTransaction\<close> throws an error, or the broadcast
  returns a transaction id.
\<close>

datatype stage = In_getSwap | In_sign | In_send

datatype attempt =
    Threw stage js_error
  | Sent string

text \<open>
  The oracle. Every consultation is numbered by the state's \<open>tick\<close>, so an answer may
  depend on everything that happened before.
  \<^item> \<open>answer t p\<close>: what the \<^verbatim>\<open>try\<close> block meets when it calls provider \<open>p\<close> at tick \<open>t\<close>;
  \<^item> \<open>latency t\<close>: the milliseconds that call takes;
  \<^item> \<open>draw t\<close>: the pseudo-random generator; \<^verbatim>\<open>Math.floor(Math.random() * n)\<close> is
    \<open>draw t mod n\<close>, an integer of \<open>[0, n)\<close> chosen by the environment;
  \<^item> \<open>fl\<close>: rounding to the nearest double. JavaScript numbers are doubles, here the
    rationals they denote, and \<^verbatim>\<open>a * b\<close> is \<open>fl (a * b)\<close>.
\<close>

record env =
  answer :: "nat \<Rightarrow> string \<Rightarrow> attempt"
  latency :: "nat \<Rightarrow> nat"
  draw :: "nat \<Rightarrow> nat"
  fl :: "rat \<Rightarrow> rat"

text \<open>What the outside sees, in order: console lines, provider calls, sleeps.\<close>

datatype event =
    Swap_begin int string string string rat
  | Log_try string string
  | Provider_call int string string string int string attempt
  | Log_ok string string int string
  | Log_fail string string string
  | Log_all_failed string
  | Log_reset int int
  | Log_rest
  | Log_cap int
  | Log_forward string string rat
  | Log_dwell string int
  | Log_round_end int int
  | Sleep int

text \<open>
  \<open>Swap_begin at label from to amount\<close> marks an entry into \<^verbatim>\<open>executeSwap\<close>;
  \<open>Provider_call at provider from to amountLamports signer result\<close> is one pass through
  its \<^verbatim>\<open>try\<close> block, stamped with the time of the call.
\<close>

subsection \<open>The bot\<close>

text \<open>
  The fields of \<^verbatim>\<open>MultiProtocolBot\<close>, then the world: the clock in milliseconds since
  the epoch, the number of oracle consultations so far, the trace. \<^verbatim>\<open>lastResetDate\<close> is
  an ISO date or the empty string: \<open>Some d\<close> is the date of day \<open>d\<close> (counted from
  1970-01-01), \<open>None\<close> the empty string; two ISO dates are equal exactly when their days
  are.
\<close>

record state =
  wallets :: "wallet list"
  providers :: "provider list"
  dailyTxCount :: int
  lastResetDate :: "int option"
  now :: int
  tick :: nat
  trace :: "event list"

definition emit :: "event list \<Rightarrow> state \<Rightarrow> state" where
  "emit evs s = s\<lparr>trace := trace s @ evs\<rparr>"

text \<open>
  \<^verbatim>\<open>await new Promise(r => setTimeout(r, ms))\<close>: the clock moves on by the delay, the
  least time such a timer takes.
\<close>

definition sleep :: "int \<Rightarrow> state \<Rightarrow> state" where
  "sleep ms s = s\<lparr>now := now s + ms, trace := trace s @ [Sleep ms]\<rparr>"

text \<open>The constructor, after \<^verbatim>\<open>initWallets\<close> has read the wallets \<open>ws\<close> from the environment.\<close>

definition new_bot :: "okx_config \<Rightarrow> wallet list \<Rightarrow> int \<Rightarrow> state" where
  "new_bot cfg ws t0 =
     \<lparr>wallets = ws,
      providers = [DFlowProvider, RaydiumProvider, JupiterProvider, OKXDexProvider cfg],
      dailyTxCount = 0,
      lastResetDate = None,
      now = t0,
      tick = 0,
      trace = []\<rparr>"

text \<open>\<^verbatim>\<open>DateTime.now().setZone('Asia/Shanghai')\<close>: UTC+8 the whole year.\<close>

definition zone_hour :: "int \<Rightarrow> int" where
  "zone_hour t = ((t + 8 * 3600000) div 3600000) mod 24"

definition zone_date :: "int \<Rightarrow> int" where
  "zone_date t = (t + 8 * 3600000) div 86400000"

definition isWorkTime :: "state \<Rightarrow> bool" where
  "isWorkTime s = (zone_hour (now s) \<ge> 8 \<and> zone_hour (now s) < 24)"

definition resetDailyCounter :: "state \<Rightarrow> state" where
  "resetDailyCounter s =
     (let today = zone_date (now s) in
      if Some today \<noteq> lastResetDate s
      then (emit [Log_reset today (dailyTxCount s)] s)\<lparr>dailyTxCount := 0, lastResetDate := Some today\<rparr>
      else s)"

text \<open>The text the \<^verbatim>\<open>catch\<close> block of \<^verbatim>\<open>executeSwap\<close> prints for a caught error.\<close>

definition failure_text :: "js_error \<Rightarrow> string" where
  "failure_text e =
     (case response_data e of
        Some d \<Rightarrow> d
      | None \<Rightarrow> (case message e of Some m \<Rightarrow> m | None \<Rightarrow> ''undefined''))"

text \<open>
  The \<^verbatim>\<open>for (const provider of this.providers)\<close> loop of \<^verbatim>\<open>executeSwap\<close>, on the
  providers still to visit.
\<close>

fun try_providers ::
  "env \<Rightarrow> wallet \<Rightarrow> string \<Rightarrow> string \<Rightarrow> int \<Rightarrow> provider list \<Rightarrow> state \<Rightarrow> bool \<times> state" where
  "try_providers e ctx from to amountLamports [] s =
     (False, emit [Log_all_failed (label ctx)] s)"
| "try_providers e ctx from to amountLamports (p # ps) s =
     (if \<not> available p then try_providers e ctx from to amountLamports ps s
      else
        let r = answer e (tick s) (name p);
            s1 = (emit [Log_try (label ctx) (name p),
                        Provider_call (now s) (name p) from to amountLamports (pubkey ctx) r] s)
                   \<lparr>tick := Suc (tick s), now := now s + int (latency e (tick s))\<rparr>
        in case r of
             Sent txid \<Rightarrow>
               (True, emit [Log_ok (label ctx) (name p) (dailyTxCount s1 + 1) txid]
                        (s1\<lparr>dailyTxCount := dailyTxCount s1 + 1\<rparr>))
           | Threw st err \<Rightarrow>
               try_providers e ctx from to amountLamports ps
                 (emit [Log_fail (label ctx) (name p) (failure_text err)] s1))"

definition executeSwap ::
  "env \<Rightarrow> wallet \<Rightarrow> string \<Rightarrow> string \<Rightarrow> rat \<Rightarrow> state \<Rightarrow> bool \<times> state" where
  "executeSwap e ctx from to amount s =
     (let amountLamports = \<lfloor>fl e (amount * LAMPORTS_PER_SOL)\<rfloor>
      in try_providers e ctx from to amountLamports (providers s)
           (emit [Swap_begin (now s) (label ctx) from to amount] s))"

subsection \<open>The schedule loop\<close>

text \<open>
  \<^verbatim>\<open>[...this.wallets].sort(() => Math.random() - 0.5)\<close>. The sort is the engine's; it is
  modelled as an insertion sort that puts each element into the part already placed,
  asking the comparator at every comparison. The comparator ignores its arguments and
  answers with a fresh draw; its answer is negative when the draw is even.
\<close>

fun place :: "env \<Rightarrow> 'a \<Rightarrow> 'a list \<Rightarrow> nat \<Rightarrow> 'a list \<times> nat" where
  "place e x [] t = ([x], t)"
| "place e x (y # ys) t =
     (if even (draw e t) then (x # y # ys, Suc t)
      else (case place e x ys (Suc t) of (zs, t') \<Rightarrow> (y # zs, t')))"

fun sort_random :: "env \<Rightarrow> 'a list \<Rightarrow> 'a list \<Rightarrow> nat \<Rightarrow> 'a list \<times> nat" where
  "sort_random e placed [] t = (placed, t)"
| "sort_random e placed (x # xs) t =
     (case place e x placed t of (placed', t') \<Rightarrow> sort_random e placed' xs t')"

definition shuffle :: "env \<Rightarrow> 'a list \<Rightarrow> nat \<Rightarrow> 'a list \<times> nat" where
  "shuffle e ws t = sort_random e [] ws t"

text \<open>
  The body of \<^verbatim>\<open>for (const wallet of shuffled)\<close>, in its three steps: a target and an
  amount are drawn and the forward swap is tried (\<open>forward_swap\<close>); after a success and a
  dwell the swap back (\<open>sell_back\<close>); the pause before the next wallet. The amount is
  \<^verbatim>\<open>Number((Math.random() * (0.001 - 0.0001) + 0.0001).toFixed(6))\<close>, the double of a
  decimal with six places between 0.000100 and 0.001000.
\<close>

definition forward_swap :: "env \<Rightarrow> wallet \<Rightarrow> state \<Rightarrow> mint_entry \<times> rat \<times> bool \<times> state" where
  "forward_swap e w s =
     (let target = PROTOCOL_MINTS ! (draw e (tick s) mod length PROTOCOL_MINTS);
          amount = fl e (of_nat (100 + draw e (Suc (tick s)) mod 901) / 1000000);
          s1 = (emit [Log_forward (label w) (mint_name target) amount] s)\<lparr>tick := tick s + 2\<rparr>;
          (ok, s2) = executeSwap e w MINTS_SOL (mint target) amount s1
      in (target, amount, ok, s2))"

definition sell_back :: "env \<Rightarrow> wallet \<Rightarrow> mint_entry \<Rightarrow> rat \<Rightarrow> state \<Rightarrow> state" where
  "sell_back e w target amount s2 =
     (let wait = int (draw e (tick s2) mod 240) + 120;
          s2' = sleep (wait * 1000) ((emit [Log_dwell (label w) wait] s2)\<lparr>tick := Suc (tick s2)\<rparr>)
      in snd (executeSwap e w (mint target) MINTS_SOL (fl e (amount * fl e (995 / 1000))) s2'))"

definition visit_wallet :: "env \<Rightarrow> wallet \<Rightarrow> state \<Rightarrow> state" where
  "visit_wallet e w s =
     (let (target, amount, ok, s2) = forward_swap e w s;
          s3 = (if ok then sell_back e w target amount s2 else s2)
      in sleep (20000 + int (draw e (tick s3) mod 40000)) (s3\<lparr>tick := Suc (tick s3)\<rparr>))"

fun for_wallets :: "env \<Rightarrow> wallet list \<Rightarrow> state \<Rightarrow> state" where
  "for_wallets e [] s = s"
| "for_wallets e (w # ws) s = for_wallets e ws (visit_wallet e w s)"

text \<open>One pass through the body of \<^verbatim>\<open>while (true)\<close> in \<^verbatim>\<open>start\<close>.\<close>

definition iteration :: "env \<Rightarrow> state \<Rightarrow> state" where
  "iteration e s0 =
     (let s = resetDailyCounter s0 in
      if \<not> isWorkTime s then sleep 600000 (emit [Log_rest] s)
      else if dailyTxCount s \<ge> 120 then sleep 600000 (emit [Log_cap (dailyTxCount s)] s)
      else
        let (shuffled, t') = shuffle e (wallets s) (tick s);
            s1 = for_wallets e shuffled (s\<lparr>tick := t'\<rparr>);
            loopWait = int (draw e (tick s1) mod 120) + 480
        in sleep (loopWait * 1000)
             ((emit [Log_round_end (dailyTxCount s1) loopWait] s1)\<lparr>tick := Suc (tick s1)\<rparr>))"

text \<open>The loop never ends; \<open>start n\<close> is its first \<open>n\<close> passes.\<close>

fun start :: "nat \<Rightarrow> env \<Rightarrow> state \<Rightarrow> state" where
  "start 0 e s = s"
| "start (Suc n) e s = start n e (iteration e s)"

subsection \<open>The single-provider script: \<^verbatim>\<open>fetchWithRetry\<close>\<close>

text \<open>
  \<^verbatim>\<open>(error.message || '').toLowerCase()\<close> and \<^verbatim>\<open>msg.includes(k)\<close>. Messages are byte strings
  here and only the letters A to Z have a lower case.
\<close>

definition lower_char :: "char \<Rightarrow> char" where
  "lower_char c =
     (let n = (of_char c :: nat) in if 65 \<le> n \<and> n \<le> 90 then char_of (n + 32) else c)"

definition toLowerCase :: "string \<Rightarrow> string" where
  "toLowerCase m = map lower_char m"

fun starts_with :: "string \<Rightarrow> string \<Rightarrow> bool" where
  "starts_with m [] = True"
| "starts_with [] (k # ks) = False"
| "starts_with (c # cs) (k # ks) = (c = k \<and> starts_with cs ks)"

fun str_includes :: "string \<Rightarrow> string \<Rightarrow> bool" where
  "str_includes [] k = (k = [])"
| "str_includes (c # cs) k = (starts_with (c # cs) k \<or> str_includes cs k)"

text \<open>The test that decides whether \<^verbatim>\<open>fetchWithRetry\<close> tries again.\<close>

definition is_network_error :: "js_error \<Rightarrow> bool" where
  "is_network_error err =
     (let msg = toLowerCase (case message err of None \<Rightarrow> [] | Some m \<Rightarrow> m) in
      str_includes msg ''socket'' \<or> str_includes msg ''timeout'' \<or> str_includes msg ''proxy''
      \<or> str_includes msg ''network'' \<or> str_includes msg ''econnreset''
      \<or> str_includes msg ''econnrefused'')"

text \<open>
  What a call of \<^verbatim>\<open>fetchWithRetry\<close> did: it returned a value (\<open>Inr\<close>) or threw (\<open>Inl\<close>,
  with \<open>None\<close> for \<^verbatim>\<open>undefined\<close>), after so many calls of \<^verbatim>\<open>operation\<close> and these delays
  in milliseconds, in order.
\<close>

record 'a retry_run =
  outcome :: "js_error option + 'a"
  calls :: nat
  delays :: "int list"

text \<open>
  The \<^verbatim>\<open>for (let i = 0; i < maxRetries; i++)\<close> loop from \<open>i\<close> on; \<open>operation k\<close> is what
  the call number \<open>k\<close> of \<^verbatim>\<open>operation()\<close> meets.
\<close>

function fetchWithRetry_loop ::
  "(nat \<Rightarrow> js_error + 'a) \<Rightarrow> nat \<Rightarrow> nat \<Rightarrow> js_error option \<Rightarrow> int list \<Rightarrow> 'a retry_run" where
  "fetchWithRetry_loop operation maxRetries i lastError slept =
     (if i < maxRetries then
        (case operation i of
           Inr v \<Rightarrow> \<lparr>outcome = Inr v, calls = Suc i, delays = slept\<rparr>
         | Inl error \<Rightarrow>
             if is_network_error error
             then fetchWithRetry_loop operation maxRetries (Suc i) (Some error)
                    (slept @ [2000 * (int i + 1)])
             else \<lparr>outcome = Inl (Some error), calls = Suc i, delays = slept\<rparr>)
      else \<lparr>outcome = Inl lastError, calls = i, delays = slept\<rparr>)"
  by pat_completeness auto
termination
  by (relation "measure (\<lambda>(operation, maxRetries, i, lastError, slept). maxRetries - i)") auto

definition fetchWithRetry :: "(nat \<Rightarrow> js_error + 'a) \<Rightarrow> nat \<Rightarrow> 'a retry_run" where
  "fetchWithRetry operation maxRetries = fetchWithRetry_loop operation maxRetries 0 None []"

text \<open>
  \<^verbatim>\<open>executeSwap\<close> of the single-provider script: the quote and the swap request, each
  under \<^verbatim>\<open>fetchWithRetry\<close> with the default ceiling 3, then signing and the broadcast.
  \<open>ended\<close> is the value returned; it is \<open>None\<close> when the \<^verbatim>\<open>catch\<close> block itself throws,
  which reading \<^verbatim>\<open>e.response\<close> of an undefined \<open>e\<close> does.
\<close>

record jupiter_replies =
  quote_reply :: "nat \<Rightarrow> js_error + string"
  swap_reply :: "nat \<Rightarrow> js_error + string"
  submit_reply :: "js_error + string"

record swap_run =
  ended :: "bool option"
  quote_calls :: nat
  swap_calls :: nat
  slept_for :: "int list"

definition catch_block :: "js_error option \<Rightarrow> bool option" where
  "catch_block thrown = (case thrown of None \<Rightarrow> None | Some e \<Rightarrow> Some False)"

definition executeSwap_single :: "jupiter_replies \<Rightarrow> swap_run" where
  "executeSwap_single w =
     (let q = fetchWithRetry (quote_reply w) 3 in
      case outcome q of
        Inl thrown \<Rightarrow>
          \<lparr>ended = catch_block thrown, quote_calls = calls q, swap_calls = 0, slept_for = delays q\<rparr>
      | Inr quoteRes \<Rightarrow>
          (let sw = fetchWithRetry (swap_reply w) 3 in
           (case outcome sw of
              Inl thrown \<Rightarrow>
                \<lparr>ended = catch_block thrown, quote_calls = calls q, swap_calls = calls sw,
                 slept_for = delays q @ delays sw\<rparr>
            | Inr swapRes \<Rightarrow>
                \<lparr>ended = (case submit_reply w of Inl e \<Rightarrow> catch_block (Some e) | Inr txid \<Rightarrow> Some True),
                 quote_calls = calls q, swap_calls = calls sw, slept_for = delays q @ delays sw\<rparr>)))"

subsection \<open>Reading a trace\<close>

text \<open>The events appended between two states.\<close>

definition emitted :: "state \<Rightarrow> state \<Rightarrow> event list" where
  "emitted s s' = drop (length (trace s)) (trace s')"

text \<open>The providers called, in order.\<close>

fun invoked :: "event list \<Rightarrow> string list" where
  "invoked [] = []"
| "invoked (Provider_call tm p from to n signer r # evs) = p # invoked evs"
| "invoked (ev # evs) = invoked evs"

text \<open>The times at which providers were called.\<close>

fun call_times :: "event list \<Rightarrow> int list" where
  "call_times [] = []"
| "call_times (Provider_call tm p from to n signer r # evs) = tm # call_times evs"
| "call_times (ev # evs) = call_times evs"

text \<open>The number of provider calls that ended with an accepted broadcast.\<close>

fun submissions :: "event list \<Rightarrow> nat" where
  "submissions [] = 0"
| "submissions (Provider_call tm p from to n signer (Sent txid) # evs) = Suc (submissions evs)"
| "submissions (ev # evs) = submissions evs"

text \<open>The failures reported, provider and reason, in order.\<close>

fun failures :: "event list \<Rightarrow> (string \<times> string) list" where
  "failures [] = []"
| "failures (Log_fail l p reason # evs) = (p, reason) # failures evs"
| "failures (ev # evs) = failures evs"

text \<open>The swaps requested: label, source, destination, amount.\<close>

fun swaps :: "event list \<Rightarrow> (string \<times> string \<times> string \<times> rat) list" where
  "swaps [] = []"
| "swaps (Swap_begin tm l from to amount # evs) = (l, from, to, amount) # swaps evs"
| "swaps (ev # evs) = swaps evs"

text \<open>The wallets for which a swap out of SOL, a forward swap, was requested.\<close>

definition forward_labels :: "event list \<Rightarrow> string list" where
  "forward_labels evs = map fst (filter (\<lambda>(l, src, dst, a). src = MINTS_SOL) (swaps evs))"

text \<open>The reason the \<^verbatim>\<open>catch\<close> block prints for an attempt that threw.\<close>

fun reason_of :: "attempt \<Rightarrow> string" where
  "reason_of (Threw st err) = failure_text err"
| "reason_of (Sent txid) = []"

subsection \<open>Concrete runs\<close>

definition wallet_a :: wallet where
  "wallet_a = \<lparr>pubkey = ''7xKXtg2CW87d97TXJSDpbD5jBkheTqA83TZRuJosgAsU'', proxy = None\<rparr>"

definition wallet_b :: wallet where
  "wallet_b = \<lparr>pubkey = ''9WzDXwBbmkg8ZTbNMqUxvQRAyrZzDsGYdLVL9zYtAWWM'',
               proxy = Some ''10.0.0.2:1080:user:pass''\<rparr>"

definition err_timeout :: js_error where
  "err_timeout = \<lparr>message = Some ''timeout of 15000ms exceeded'', response_data = None\<rparr>"

definition err_rejected :: js_error where
  "err_rejected = \<lparr>message = Some ''Request failed with status code 400'',
                    response_data = Some ''no route found''\<rparr>"

text \<open>A chain of three available providers of which only the last one succeeds.\<close>

definition chain_abc :: "provider list" where
  "chain_abc = [\<lparr>name = ''A'', available = True\<rparr>, \<lparr>name = ''B'', available = True\<rparr>,
                \<lparr>name = ''C'', available = True\<rparr>]"

definition env_abc :: env where
  "env_abc = \<lparr>answer = (\<lambda>t p. if p = ''C'' then Sent ''tx1''
                               else if p = ''A'' then Threw In_getSwap err_timeout
                               else Threw In_send err_rejected),
              latency = (\<lambda>t. 0), draw = (\<lambda>t. 0), fl = (\<lambda>x. x)\<rparr>"

definition state_abc :: state where
  "state_abc = \<lparr>wallets = [wallet_a], providers = chain_abc, dailyTxCount = 5,
                lastResetDate = Some 20000, now = 1728000000000, tick = 0, trace = []\<rparr>"

text \<open>A world in which every provider call goes through at once and every draw is 0.\<close>

definition env_ok :: env where
  "env_ok = \<lparr>answer = (\<lambda>t p. Sent ''tx''), latency = (\<lambda>t. 0), draw = (\<lambda>t. 0), fl = (\<lambda>x. x)\<rparr>"

definition no_okx :: okx_config where
  "no_okx = \<lparr>OKX_API_KEY = None, OKX_SECRET_KEY = Some ''secret'', OKX_PASSPHRASE = None\<rparr>"

text \<open>
  Day 20000 of the zone begins at 1727971200000. A wallet at 23:59:00 of that day, at
  03:00:00, and at 12:00:00 with 119 transactions done.
\<close>

definition state_late :: state where
  "state_late = (new_bot no_okx [wallet_a] 1728057540000)
                  \<lparr>dailyTxCount := 5, lastResetDate := Some 20000\<rparr>"

definition state_night :: state where
  "state_night = (new_bot no_okx [wallet_a] 1727982000000)
                   \<lparr>dailyTxCount := 57, lastResetDate := Some 19999\<rparr>"

definition state_119 :: state where
  "state_119 = (new_bot no_okx [wallet_a] 1728014400000)
                 \<lparr>dailyTxCount := 119, lastResetDate := Some 20000\<rparr>"


text \<open>
  A world in which every provider call times out; one in which every call is turned
  down; and one in which only the call at tick 2, the first call of a forward swap begun
  at tick 0, goes through.
\<close>

definition env_down :: env where
  "env_down = \<lparr>answer = (\<lambda>t p. Threw In_getSwap err_timeout),
               latency = (\<lambda>t. 15000), draw = (\<lambda>t. 0), fl = (\<lambda>x. x)\<rparr>"

definition env_refused :: env where
  "env_refused = \<lparr>answer = (\<lambda>t p. Threw In_getSwap err_rejected),
                  latency = (\<lambda>t. 0), draw = (\<lambda>t. 0), fl = (\<lambda>x. x)\<rparr>"

definition env_hedge_fails :: env where
  "env_hedge_fails = \<lparr>answer = (\<lambda>t p. if t = 2 then Sent ''tx'' else Threw In_send err_rejected),
                      latency = (\<lambda>t. 0), draw = (\<lambda>t. 0), fl = (\<lambda>x. x)\<rparr>"

text \<open>A chain whose only provider is not configured.\<close>

definition state_unavailable :: state where
  "state_unavailable = state_abc\<lparr>providers := [\<lparr>name = ''OKX DEX'', available = False\<rparr>]\<rparr>"

text \<open>
  Replies to the single-provider script: the quote request times out every time; the
  quote request is turned down at once; the quote request times out once and then
  answers.
\<close>

definition replies_timeout :: jupiter_replies where
  "replies_timeout = \<lparr>quote_reply = (\<lambda>k. Inl err_timeout), swap_reply = (\<lambda>k. Inr ''tx''),
                      submit_reply = Inr ''sig''\<rparr>"

definition replies_rejected :: jupiter_replies where
  "replies_rejected = \<lparr>quote_reply = (\<lambda>k. Inl err_rejected), swap_reply = (\<lambda>k. Inr ''tx''),
                       submit_reply = Inr ''sig''\<rparr>"

definition replies_flaky :: jupiter_replies where
  "replies_flaky = \<lparr>quote_reply = (\<lambda>k. if k = 0 then Inl err_timeout else Inr ''quote''),
                    swap_reply = (\<lambda>k. Inr ''tx''), submit_reply = Inr ''sig''\<rparr>"

definition err_reset :: js_error where
  "err_reset = \<lparr>message = Some ''read ECONNRESET'', response_data = None\<rparr>"

section \<open>Properties\<close>


subsection \<open>Reading the trace of two runs in sequence\<close>

lemma invoked_append: "invoked (xs @ ys) = invoked xs @ invoked ys"
  by (induction xs rule: invoked.induct) simp_all

lemma failures_append: "failures (xs @ ys) = failures xs @ failures ys"
  by (induction xs rule: failures.induct) simp_all

lemma call_times_append: "call_times (xs @ ys) = call_times xs @ call_times ys"
  by (induction xs rule: call_times.induct) simp_all

lemma submissions_append: "submissions (xs @ ys) = submissions xs + submissions ys"
  by (induction xs rule: submissions.induct) simp_all

lemma swaps_append: "swaps (xs @ ys) = swaps xs @ swaps ys"
  by (induction xs rule: swaps.induct) simp_all

lemmas trace_append = invoked_append failures_append call_times_append submissions_append
  swaps_append

lemma map_nth_upt_take: "m \<le> length xs \<Longrightarrow> map (\<lambda>i. f (xs ! i)) [0..<m] = map f (take m xs)"
  by (rule nth_equalityI) simp_all

subsection \<open>The provider loop\<close>

lemma try_providers_chain:
  "try_providers e ctx f t n ps s = (ok, s') \<Longrightarrow>
   \<exists>m. m \<le> length (filter available ps)
     \<and> (\<forall>i<m. \<exists>st err. answer e (tick s + i) (name (filter available ps ! i)) = Threw st err)
     \<and> (ok \<longrightarrow> m < length (filter available ps)
            \<and> (\<exists>txid. answer e (tick s + m) (name (filter available ps ! m)) = Sent txid))
     \<and> (\<not> ok \<longrightarrow> m = length (filter available ps))
     \<and> invoked (trace s') = invoked (trace s) @ map name (take (if ok then Suc m else m) (filter available ps))
     \<and> failures (trace s') = failures (trace s) @
          map (\<lambda>i. (name (filter available ps ! i),
                     reason_of (answer e (tick s + i) (name (filter available ps ! i))))) [0..<m]
     \<and> tick s' = tick s + (if ok then Suc m else m)"
proof (induction ps arbitrary: s)
  case Nil
  then show ?case by (auto simp: emit_def trace_append)
next
  case (Cons p ps)
  show ?case
  proof (cases "available p")
    case False
    with Cons show ?thesis by simp
  next
    case True
    show ?thesis
    proof (cases "answer e (tick s) (name p)")
      case (Sent txid)
      with True Cons.prems show ?thesis
        by (auto simp: emit_def trace_append Let_def intro!: exI[of _ 0])
    next
      case (Threw st err)
      define s1 where "s1 = emit [Log_fail (label ctx) (name p) (failure_text err)]
         ((emit [Log_try (label ctx) (name p),
                        Provider_call (now s) (name p) f t n (pubkey ctx) (Threw st err)] s)
                   \<lparr>tick := Suc (tick s), now := now s + int (latency e (tick s))\<rparr>)"
      from Threw True Cons.prems have "try_providers e ctx f t n ps s1 = (ok, s')"
        by (simp add: Let_def s1_def)
      from Cons.IH[OF this] obtain m where m: "m \<le> length (filter available ps)"
        "(\<forall>i<m. \<exists>st err. answer e (tick s1 + i) (name (filter available ps ! i)) = Threw st err)"
        "(ok \<longrightarrow> m < length (filter available ps)
            \<and> (\<exists>txid. answer e (tick s1 + m) (name (filter available ps ! m)) = Sent txid))"
        "(\<not> ok \<longrightarrow> m = length (filter available ps))"
        "invoked (trace s') = invoked (trace s1) @ map name (take (if ok then Suc m else m) (filter available ps))"
        "failures (trace s') = failures (trace s1) @
          map (\<lambda>i. (name (filter available ps ! i),
                     reason_of (answer e (tick s1 + i) (name (filter available ps ! i))))) [0..<m]"
        "tick s' = tick s1 + (if ok then Suc m else m)" by blast
      have t1: "tick s1 = Suc (tick s)" by (simp add: s1_def emit_def)
      have i1: "invoked (trace s1) = invoked (trace s) @ [name p]"
        by (simp add: s1_def emit_def trace_append)
      have f1: "failures (trace s1) = failures (trace s) @ [(name p, failure_text err)]"
        by (simp add: s1_def emit_def trace_append)
      show ?thesis
      proof (intro exI[of _ "Suc m"] conjI)
        show "Suc m \<le> length (filter available (p # ps))" using m(1) True by simp
        show "\<forall>i<Suc m. \<exists>st err. answer e (tick s + i) (name (filter available (p # ps) ! i)) = Threw st err"
          using m(2) True Threw t1 by (auto simp: less_Suc_eq_0_disj)
        show "ok \<longrightarrow> Suc m < length (filter available (p # ps)) \<and>
           (\<exists>txid. answer e (tick s + Suc m) (name (filter available (p # ps) ! Suc m)) = Sent txid)"
          using m(3) True t1 by auto
        show "\<not> ok \<longrightarrow> Suc m = length (filter available (p # ps))" using m(4) True by simp
        show "invoked (trace s') =
           invoked (trace s) @ map name (take (if ok then Suc (Suc m) else Suc m) (filter available (p # ps)))"
          using m(5) i1 True by simp
        show "failures (trace s') = failures (trace s) @
          map (\<lambda>i. (name (filter available (p # ps) ! i),
                     reason_of (answer e (tick s + i) (name (filter available (p # ps) ! i))))) [0..<Suc m]"
          using m(6) f1 True Threw t1 by (simp add: upt_conv_Cons map_Suc_upt[symmetric] del: upt_Suc)
        show "tick s' = tick s + (if ok then Suc (Suc m) else Suc m)" using m(7) t1 by simp
      qed
    qed
  qed
qed

text \<open>What the provider loop leaves alone, and what it counts.\<close>

lemma try_providers_frame:
  "try_providers e ctx f t n ps s = (ok, s') \<Longrightarrow>
   wallets s' = wallets s \<and> providers s' = providers s \<and> lastResetDate s' = lastResetDate s
   \<and> dailyTxCount s' = dailyTxCount s + (if ok then 1 else 0)
   \<and> submissions (trace s') = submissions (trace s) + (if ok then 1 else 0)
   \<and> swaps (trace s') = swaps (trace s)
   \<and> now s \<le> now s'"
proof (induction ps arbitrary: s)
  case Nil
  then show ?case by (auto simp: emit_def trace_append)
next
  case (Cons p ps)
  show ?case
  proof (cases "available p")
    case False
    with Cons show ?thesis by simp
  next
    case True
    show ?thesis
    proof (cases "answer e (tick s) (name p)")
      case (Sent txid)
      with True Cons.prems show ?thesis
        by (auto simp: emit_def trace_append Let_def)
    next
      case (Threw st err)
      with True Cons.prems Cons.IH[of "emit [Log_fail (label ctx) (name p) (failure_text err)]
         ((emit [Log_try (label ctx) (name p),
                        Provider_call (now s) (name p) f t n (pubkey ctx) (Threw st err)] s)
                   \<lparr>tick := Suc (tick s), now := now s + int (latency e (tick s))\<rparr>)"]
      show ?thesis
        by (simp add: emit_def trace_append Let_def)
    qed
  qed
qed

text \<open>
  C1. The providers are tried in the order of the chain, the unavailable ones left out,
  up to the first one whose attempt (quote, signature and broadcast) goes through: with
  \<open>m\<close> the number of eligible providers that threw, the providers called during the
  swap are the first \<open>m\<close> eligible ones, followed by the next one when the swap
  succeeds; the failures reported are those \<open>m\<close>, in order; a chain with distinct names
  has no provider called twice. The chain the constructor builds is DFlow, Raydium,
  Jupiter, OKX DEX.
\<close>

theorem executeSwap_priority_order:
  "executeSwap e ctx from to amount s = (ok, s') \<Longrightarrow>
   (\<exists>m \<le> length (filter available (providers s)).
       (\<forall>i<m. \<exists>st err.
           answer e (tick s + i) (name (filter available (providers s) ! i)) = Threw st err)
     \<and> (if ok then m < length (filter available (providers s))
           \<and> (\<exists>txid. answer e (tick s + m) (name (filter available (providers s) ! m)) = Sent txid)
         else m = length (filter available (providers s)))
     \<and> invoked (trace s') =
         invoked (trace s) @ map name (take (if ok then Suc m else m) (filter available (providers s)))
     \<and> map fst (failures (trace s')) =
         map fst (failures (trace s)) @ map name (take m (filter available (providers s)))
     \<and> (distinct (map name (providers s)) \<longrightarrow>
          distinct (drop (length (invoked (trace s))) (invoked (trace s')))))
   \<and> map name (providers (new_bot cfg ws t0)) = [''DFlow'', ''Raydium'', ''Jupiter'', ''OKX DEX'']"
proof
  assume run: "executeSwap e ctx from to amount s = (ok, s')"
  define s0 where "s0 = emit [Swap_begin (now s) (label ctx) from to amount] s"
  define chain where "chain = filter available (providers s)"
  from run have "try_providers e ctx from to \<lfloor>fl e (amount * LAMPORTS_PER_SOL)\<rfloor> (providers s) s0 = (ok, s')"
    by (simp add: executeSwap_def s0_def Let_def)
  from try_providers_chain[OF this] obtain m where m:
    "m \<le> length chain"
    "\<forall>i<m. \<exists>st err. answer e (tick s0 + i) (name (chain ! i)) = Threw st err"
    "ok \<longrightarrow> m < length chain \<and> (\<exists>txid. answer e (tick s0 + m) (name (chain ! m)) = Sent txid)"
    "\<not> ok \<longrightarrow> m = length chain"
    "invoked (trace s') = invoked (trace s0) @ map name (take (if ok then Suc m else m) chain)"
    "failures (trace s') = failures (trace s0) @
          map (\<lambda>i. (name (chain ! i), reason_of (answer e (tick s0 + i) (name (chain ! i))))) [0..<m]"
    unfolding chain_def by blast
  have s0: "tick s0 = tick s" "invoked (trace s0) = invoked (trace s)"
    "failures (trace s0) = failures (trace s)"
    by (simp_all add: s0_def emit_def trace_append)
  have names: "map fst (map (\<lambda>i. (name (chain ! i), reason_of (answer e (tick s0 + i) (name (chain ! i))))) [0..<m])
      = map name (take m chain)"
    using m(1) by (simp add: map_nth_upt_take o_def)
  have dist: "distinct (map name (providers s)) \<longrightarrow>
          distinct (drop (length (invoked (trace s))) (invoked (trace s')))"
  proof
    assume "distinct (map name (providers s))"
    then have "distinct (map name chain)"
      unfolding chain_def by (simp add: distinct_map_filter)
    then have "distinct (map name (take (if ok then Suc m else m) chain))"
      by (metis distinct_take take_map)
    then show "distinct (drop (length (invoked (trace s))) (invoked (trace s')))"
      using m(5) s0 by simp
  qed
  show "\<exists>m \<le> length (filter available (providers s)).
       (\<forall>i<m. \<exists>st err.
           answer e (tick s + i) (name (filter available (providers s) ! i)) = Threw st err)
     \<and> (if ok then m < length (filter available (providers s))
           \<and> (\<exists>txid. answer e (tick s + m) (name (filter available (providers s) ! m)) = Sent txid)
         else m = length (filter available (providers s)))
     \<and> invoked (trace s') =
         invoked (trace s) @ map name (take (if ok then Suc m else m) (filter available (providers s)))
     \<and> map fst (failures (trace s')) =
         map fst (failures (trace s)) @ map name (take m (filter available (providers s)))
     \<and> (distinct (map name (providers s)) \<longrightarrow>
          distinct (drop (length (invoked (trace s))) (invoked (trace s'))))"
    using m(1-5) s0 names dist m(6) unfolding chain_def[symmetric]
    by (intro exI[of _ m]) (simp del: upt_Suc)
next
  show "map name (providers (new_bot cfg ws t0)) = [''DFlow'', ''Raydium'', ''Jupiter'', ''OKX DEX'']"
    by (simp add: new_bot_def DFlowProvider_def RaydiumProvider_def JupiterProvider_def
        OKXDexProvider_def)
qed


lemmas run_simps = executeSwap_def emit_def sleep_def Let_def LAMPORTS_PER_SOL_def label_def
  failure_text_def MINTS_SOL_def

lemma abc_run:
  "executeSwap env_abc wallet_a ''SOL'' ''mSOL'' (1 / 2000) state_abc =
     (True, state_abc\<lparr>dailyTxCount := 6, tick := 3,
        trace := [Swap_begin 1728000000000 ''7xKXtg'' ''SOL'' ''mSOL'' (1 / 2000),
                  Log_try ''7xKXtg'' ''A'',
                  Provider_call 1728000000000 ''A'' ''SOL'' ''mSOL'' 500000
                    ''7xKXtg2CW87d97TXJSDpbD5jBkheTqA83TZRuJosgAsU'' (Threw In_getSwap err_timeout),
                  Log_fail ''7xKXtg'' ''A'' ''timeout of 15000ms exceeded'',
                  Log_try ''7xKXtg'' ''B'',
                  Provider_call 1728000000000 ''B'' ''SOL'' ''mSOL'' 500000
                    ''7xKXtg2CW87d97TXJSDpbD5jBkheTqA83TZRuJosgAsU'' (Threw In_send err_rejected),
                  Log_fail ''7xKXtg'' ''B'' ''no route found'',
                  Log_try ''7xKXtg'' ''C'',
                  Provider_call 1728000000000 ''C'' ''SOL'' ''mSOL'' 500000
                    ''7xKXtg2CW87d97TXJSDpbD5jBkheTqA83TZRuJosgAsU'' (Sent ''tx1''),
                  Log_ok ''7xKXtg'' ''C'' 6 ''tx1'']\<rparr>)"
  by (simp add: run_simps state_abc_def env_abc_def chain_abc_def wallet_a_def
      err_timeout_def err_rejected_def)

theorem executeSwap_priority_order_witness:
  "fst (executeSwap env_abc wallet_a ''SOL'' ''mSOL'' (1 / 2000) state_abc)
   \<and> invoked (trace (snd (executeSwap env_abc wallet_a ''SOL'' ''mSOL'' (1 / 2000) state_abc)))
       = [''A'', ''B'', ''C'']
   \<and> map fst (failures (trace (snd (executeSwap env_abc wallet_a ''SOL'' ''mSOL'' (1 / 2000) state_abc))))
       = [''A'', ''B'']
   \<and> filter available (providers state_abc) = chain_abc"
  using executeSwap_priority_order [of env_abc wallet_a "''SOL''" "''mSOL''" "1 / 2000" state_abc
      True "snd (executeSwap env_abc wallet_a ''SOL'' ''mSOL'' (1 / 2000) state_abc)"]
  by (simp add: abc_run) (simp add: state_abc_def chain_abc_def)


subsection \<open>One swap, one wallet, one round\<close>

lemma executeSwap_effect:
  "executeSwap e ctx f t a s = (ok, s') \<Longrightarrow>
   wallets s' = wallets s \<and> providers s' = providers s \<and> lastResetDate s' = lastResetDate s
   \<and> dailyTxCount s' = dailyTxCount s + (if ok then 1 else 0)
   \<and> submissions (trace s') = submissions (trace s) + (if ok then 1 else 0)
   \<and> swaps (trace s') = swaps (trace s) @ [(label ctx, f, t, a)]
   \<and> now s \<le> now s'"
proof -
  assume "executeSwap e ctx f t a s = (ok, s')"
  then have "try_providers e ctx f t \<lfloor>fl e (a * LAMPORTS_PER_SOL)\<rfloor> (providers s)
      (emit [Swap_begin (now s) (label ctx) f t a] s) = (ok, s')"
    by (simp add: executeSwap_def Let_def)
  from try_providers_frame[OF this] show ?thesis
    by (simp add: emit_def trace_append)
qed

lemma forward_swap_effect:
  "forward_swap e w s = (target, amount, ok, s2) \<Longrightarrow>
   wallets s2 = wallets s \<and> providers s2 = providers s \<and> lastResetDate s2 = lastResetDate s
   \<and> dailyTxCount s2 = dailyTxCount s + (if ok then 1 else 0)
   \<and> submissions (trace s2) = submissions (trace s) + (if ok then 1 else 0)
   \<and> swaps (trace s2) = swaps (trace s) @ [(label w, MINTS_SOL, mint target, amount)]
   \<and> now s \<le> now s2"
proof -
  assume a: "forward_swap e w s = (target, amount, ok, s2)"
  define tg where "tg = PROTOCOL_MINTS ! (draw e (tick s) mod length PROTOCOL_MINTS)"
  define am where "am = fl e (of_nat (100 + draw e (Suc (tick s)) mod 901) / 1000000)"
  define s1 where "s1 = (emit [Log_forward (label w) (mint_name tg) am] s)\<lparr>tick := tick s + 2\<rparr>"
  from a have "executeSwap e w MINTS_SOL (mint tg) am s1 = (ok, s2) \<and> target = tg \<and> amount = am"
    by (auto simp: forward_swap_def Let_def tg_def am_def s1_def split: prod.splits)
  then show ?thesis using executeSwap_effect[of e w MINTS_SOL "mint tg" am s1 ok s2]
    by (simp add: s1_def emit_def trace_append)
qed

lemma sell_back_effect:
  "\<exists>ok'. wallets (sell_back e w target amount s) = wallets s
   \<and> providers (sell_back e w target amount s) = providers s
   \<and> lastResetDate (sell_back e w target amount s) = lastResetDate s
   \<and> dailyTxCount (sell_back e w target amount s) = dailyTxCount s + (if ok' then 1 else 0)
   \<and> submissions (trace (sell_back e w target amount s)) = submissions (trace s) + (if ok' then 1 else 0)
   \<and> swaps (trace (sell_back e w target amount s)) =
       swaps (trace s) @ [(label w, mint target, MINTS_SOL, fl e (amount * fl e (995 / 1000)))]
   \<and> now s \<le> now (sell_back e w target amount s)"
proof -
  define s2' where "s2' = sleep ((int (draw e (tick s) mod 240) + 120) * 1000)
      ((emit [Log_dwell (label w) (int (draw e (tick s) mod 240) + 120)] s)\<lparr>tick := Suc (tick s)\<rparr>)"
  obtain ok' s3 where r: "executeSwap e w (mint target) MINTS_SOL (fl e (amount * fl e (995 / 1000))) s2' = (ok', s3)"
    by (cases "executeSwap e w (mint target) MINTS_SOL (fl e (amount * fl e (995 / 1000))) s2'")
  then have sb: "sell_back e w target amount s = s3"
    by (simp add: sell_back_def Let_def s2'_def)
  from executeSwap_effect[OF r] show ?thesis
    unfolding sb by (intro exI[of _ ok']) (simp add: s2'_def sleep_def emit_def trace_append)
qed

lemma sleep_effect:
  "wallets (sleep ms s) = wallets s \<and> providers (sleep ms s) = providers s
   \<and> lastResetDate (sleep ms s) = lastResetDate s \<and> dailyTxCount (sleep ms s) = dailyTxCount s
   \<and> tick (sleep ms s) = tick s \<and> now (sleep ms s) = now s + ms
   \<and> submissions (trace (sleep ms s)) = submissions (trace s)
   \<and> swaps (trace (sleep ms s)) = swaps (trace s)
   \<and> invoked (trace (sleep ms s)) = invoked (trace s)
   \<and> call_times (trace (sleep ms s)) = call_times (trace s)"
  by (simp add: sleep_def trace_append)

text \<open>What one visit of a wallet does, told from the outcome of its forward swap.\<close>

lemma visit_wallet_effect:
  "forward_swap e w s = (target, amount, ok, s2) \<Longrightarrow>
   \<exists>ok'. wallets (visit_wallet e w s) = wallets s \<and> providers (visit_wallet e w s) = providers s
   \<and> lastResetDate (visit_wallet e w s) = lastResetDate s
   \<and> dailyTxCount (visit_wallet e w s) = dailyTxCount s + (if ok then (if ok' then 2 else 1) else 0)
   \<and> submissions (trace (visit_wallet e w s)) =
        submissions (trace s) + (if ok then (if ok' then 2 else 1) else 0)
   \<and> swaps (trace (visit_wallet e w s)) =
        swaps (trace s) @ (label w, MINTS_SOL, mint target, amount) #
          (if ok then [(label w, mint target, MINTS_SOL, fl e (amount * fl e (995 / 1000)))] else [])
   \<and> now s \<le> now (visit_wallet e w s)"
proof -
  assume a: "forward_swap e w s = (target, amount, ok, s2)"
  note f = forward_swap_effect[OF a]
  show ?thesis
  proof (cases ok)
    case False
    with a have "visit_wallet e w s = sleep (20000 + int (draw e (tick s2) mod 40000)) (s2\<lparr>tick := Suc (tick s2)\<rparr>)"
      by (simp add: visit_wallet_def Let_def)
    with f False show ?thesis by (simp add: sleep_def trace_append)
  next
    case True
    define s3 where "s3 = sell_back e w target amount s2"
    from a True have v: "visit_wallet e w s = sleep (20000 + int (draw e (tick s3) mod 40000)) (s3\<lparr>tick := Suc (tick s3)\<rparr>)"
      by (simp add: visit_wallet_def Let_def s3_def)
    from sell_back_effect[of e w target amount s2] obtain ok' where
      "wallets s3 = wallets s2" "providers s3 = providers s2" "lastResetDate s3 = lastResetDate s2"
      "dailyTxCount s3 = dailyTxCount s2 + (if ok' then 1 else 0)"
      "submissions (trace s3) = submissions (trace s2) + (if ok' then 1 else 0)"
      "swaps (trace s3) = swaps (trace s2) @ [(label w, mint target, MINTS_SOL, fl e (amount * fl e (995 / 1000)))]"
      "now s2 \<le> now s3"
      unfolding s3_def by blast
    with f True show ?thesis unfolding v
      by (intro exI[of _ ok']) (simp add: sleep_def trace_append)
  qed
qed

lemma visit_wallet_frame:
  "wallets (visit_wallet e w s) = wallets s \<and> providers (visit_wallet e w s) = providers s
   \<and> lastResetDate (visit_wallet e w s) = lastResetDate s
   \<and> dailyTxCount (visit_wallet e w s) - int (submissions (trace (visit_wallet e w s)))
       = dailyTxCount s - int (submissions (trace s))
   \<and> submissions (trace s) \<le> submissions (trace (visit_wallet e w s))
   \<and> submissions (trace (visit_wallet e w s)) \<le> submissions (trace s) + 2
   \<and> now s \<le> now (visit_wallet e w s)"
proof -
  obtain target amount ok s2 where "forward_swap e w s = (target, amount, ok, s2)"
    by (cases "forward_swap e w s") auto
  from visit_wallet_effect[OF this] show ?thesis by auto
qed

lemma for_wallets_frame:
  "wallets (for_wallets e ws s) = wallets s \<and> providers (for_wallets e ws s) = providers s
   \<and> lastResetDate (for_wallets e ws s) = lastResetDate s
   \<and> dailyTxCount (for_wallets e ws s) - int (submissions (trace (for_wallets e ws s)))
       = dailyTxCount s - int (submissions (trace s))
   \<and> submissions (trace s) \<le> submissions (trace (for_wallets e ws s))
   \<and> submissions (trace (for_wallets e ws s)) \<le> submissions (trace s) + 2 * length ws
   \<and> now s \<le> now (for_wallets e ws s)"
proof (induction ws arbitrary: s)
  case Nil
  show ?case by simp
next
  case (Cons w ws)
  from Cons.IH[of "visit_wallet e w s"] visit_wallet_frame[of e w s]
  show ?case by simp
qed


lemma protocol_mint_not_SOL: "mint (PROTOCOL_MINTS ! (d mod length PROTOCOL_MINTS)) \<noteq> MINTS_SOL"
proof -
  have "d mod 3 = 0 \<or> d mod 3 = 1 \<or> d mod 3 = 2" by arith
  then show ?thesis
    by (auto simp: PROTOCOL_MINTS_def MINTS_SOL_def)
qed

lemma forward_swap_target:
  "forward_swap e w s = (target, amount, ok, s2) \<Longrightarrow> mint target \<noteq> MINTS_SOL"
  using protocol_mint_not_SOL[of "draw e (tick s)"]
  by (auto simp: forward_swap_def Let_def split: prod.splits)

lemma visit_wallet_forward:
  "forward_labels (trace (visit_wallet e w s)) = forward_labels (trace s) @ [label w]"
proof -
  obtain target amount ok s2 where f: "forward_swap e w s = (target, amount, ok, s2)"
    by (cases "forward_swap e w s") auto
  from visit_wallet_effect[OF f] forward_swap_target[OF f] show ?thesis
    by (auto simp: forward_labels_def)
qed

lemma for_wallets_forward:
  "forward_labels (trace (for_wallets e ws s)) = forward_labels (trace s) @ map label ws"
proof (induction ws arbitrary: s)
  case Nil
  show ?case by simp
next
  case (Cons w ws)
  show ?case using Cons.IH[of "visit_wallet e w s"] visit_wallet_forward[of e w s] by simp
qed

subsection \<open>The shuffle\<close>

lemma place_mset: "mset (fst (place e x ys t)) = add_mset x (mset ys)"
proof (induction ys arbitrary: t)
  case Nil
  show ?case by simp
next
  case (Cons y ys)
  obtain zs t' where p: "place e x ys (Suc t) = (zs, t')" by (cases "place e x ys (Suc t)")
  with Cons.IH[of "Suc t"] have "mset zs = add_mset x (mset ys)" by simp
  with p show ?case by simp
qed

lemma sort_random_mset: "mset (fst (sort_random e placed xs t)) = mset placed + mset xs"
proof (induction xs arbitrary: placed t)
  case Nil
  show ?case by simp
next
  case (Cons x xs)
  obtain placed' t' where p: "place e x placed t = (placed', t')" by (cases "place e x placed t")
  with place_mset[of e x placed t] have "mset placed' = add_mset x (mset placed)" by simp
  with Cons.IH[of placed' t'] p show ?case by simp
qed

lemma shuffle_mset: "mset (fst (shuffle e ws t)) = mset ws"
  by (simp add: shuffle_def sort_random_mset)

subsection \<open>One pass of the loop\<close>

lemma resetDailyCounter_effect:
  "wallets (resetDailyCounter s) = wallets s \<and> providers (resetDailyCounter s) = providers s
   \<and> now (resetDailyCounter s) = now s \<and> tick (resetDailyCounter s) = tick s
   \<and> lastResetDate (resetDailyCounter s) = Some (zone_date (now s))
   \<and> submissions (trace (resetDailyCounter s)) = submissions (trace s)
   \<and> swaps (trace (resetDailyCounter s)) = swaps (trace s)
   \<and> invoked (trace (resetDailyCounter s)) = invoked (trace s)
   \<and> call_times (trace (resetDailyCounter s)) = call_times (trace s)
   \<and> isWorkTime (resetDailyCounter s) = isWorkTime s"
  by (auto simp: resetDailyCounter_def Let_def emit_def trace_append isWorkTime_def)

lemma resetDailyCounter_count:
  "dailyTxCount (resetDailyCounter s) =
     (if lastResetDate s = Some (zone_date (now s)) then dailyTxCount s else 0)"
  by (auto simp: resetDailyCounter_def Let_def emit_def)

text \<open>A pass that finds the window closed, or the cap reached, only sleeps ten minutes.\<close>

lemma iteration_gated:
  "\<not> isWorkTime s \<or> 120 \<le> dailyTxCount (resetDailyCounter s) \<Longrightarrow>
   dailyTxCount (iteration e s) = dailyTxCount (resetDailyCounter s)
   \<and> wallets (iteration e s) = wallets s
   \<and> lastResetDate (iteration e s) = Some (zone_date (now s))
   \<and> now (iteration e s) = now s + 600000
   \<and> submissions (trace (iteration e s)) = submissions (trace s)
   \<and> swaps (trace (iteration e s)) = swaps (trace s)
   \<and> invoked (trace (iteration e s)) = invoked (trace s)
   \<and> call_times (trace (iteration e s)) = call_times (trace s)"
  using resetDailyCounter_effect[of s]
  by (auto simp: iteration_def Let_def sleep_def emit_def trace_append)

text \<open>A pass that finds the window open and the cap not reached visits the shuffled wallets.\<close>

lemma iteration_round:
  "isWorkTime s \<Longrightarrow> dailyTxCount (resetDailyCounter s) < 120 \<Longrightarrow>
   \<exists>shuffled s0. mset shuffled = mset (wallets s)
     \<and> wallets s0 = wallets s \<and> lastResetDate s0 = Some (zone_date (now s))
     \<and> dailyTxCount s0 = dailyTxCount (resetDailyCounter s)
     \<and> submissions (trace s0) = submissions (trace s)
     \<and> swaps (trace s0) = swaps (trace s)
     \<and> wallets (iteration e s) = wallets (for_wallets e shuffled s0)
     \<and> lastResetDate (iteration e s) = lastResetDate (for_wallets e shuffled s0)
     \<and> dailyTxCount (iteration e s) = dailyTxCount (for_wallets e shuffled s0)
     \<and> submissions (trace (iteration e s)) = submissions (trace (for_wallets e shuffled s0))
     \<and> swaps (trace (iteration e s)) = swaps (trace (for_wallets e shuffled s0))"
proof -
  assume w: "isWorkTime s" and c: "dailyTxCount (resetDailyCounter s) < 120"
  define r where "r = resetDailyCounter s"
  obtain shuffled t' where sh: "shuffle e (wallets r) (tick r) = (shuffled, t')"
    by (cases "shuffle e (wallets r) (tick r)")
  define s0 where "s0 = r\<lparr>tick := t'\<rparr>"
  define s1 where "s1 = for_wallets e shuffled s0"
  from w c sh have it: "iteration e s = sleep ((int (draw e (tick s1) mod 120) + 480) * 1000)
      ((emit [Log_round_end (dailyTxCount s1) (int (draw e (tick s1) mod 120) + 480)] s1)\<lparr>tick := Suc (tick s1)\<rparr>)"
    using resetDailyCounter_effect[of s]
    by (simp add: iteration_def Let_def r_def s0_def s1_def)
  from shuffle_mset[of e "wallets r" "tick r"] sh have m: "mset shuffled = mset (wallets s)"
    using resetDailyCounter_effect[of s] by (simp add: r_def)
  show ?thesis
    using m resetDailyCounter_effect[of s] unfolding it
    by (intro exI[of _ shuffled] exI[of _ s0])
       (simp add: s0_def r_def s1_def sleep_def emit_def trace_append)
qed

lemma iteration_count:
  "dailyTxCount (iteration e s) - int (submissions (trace (iteration e s)))
     = dailyTxCount (resetDailyCounter s) - int (submissions (trace s))
   \<and> submissions (trace s) \<le> submissions (trace (iteration e s))
   \<and> submissions (trace (iteration e s)) \<le> submissions (trace s) + 2 * length (wallets s)
   \<and> wallets (iteration e s) = wallets s
   \<and> lastResetDate (iteration e s) = Some (zone_date (now s))"
proof (cases "\<not> isWorkTime s \<or> 120 \<le> dailyTxCount (resetDailyCounter s)")
  case True
  from iteration_gated[OF this] show ?thesis by simp
next
  case False
  then have "isWorkTime s" "dailyTxCount (resetDailyCounter s) < 120" by auto
  from iteration_round[OF this, of e] obtain shuffled s0 where r:
    "mset shuffled = mset (wallets s)"
    "wallets s0 = wallets s" "lastResetDate s0 = Some (zone_date (now s))"
    "dailyTxCount s0 = dailyTxCount (resetDailyCounter s)"
    "submissions (trace s0) = submissions (trace s)"
    "wallets (iteration e s) = wallets (for_wallets e shuffled s0)"
    "lastResetDate (iteration e s) = lastResetDate (for_wallets e shuffled s0)"
    "dailyTxCount (iteration e s) = dailyTxCount (for_wallets e shuffled s0)"
    "submissions (trace (iteration e s)) = submissions (trace (for_wallets e shuffled s0))"
    by blast
  from r(1) have "length shuffled = length (wallets s)" by (metis size_mset)
  with r for_wallets_frame[of e shuffled s0] show ?thesis by simp
qed


subsection \<open>The concrete runs\<close>

lemmas loop_simps = iteration_def resetDailyCounter_def isWorkTime_def zone_hour_def
  zone_date_def shuffle_def visit_wallet_def forward_swap_def sell_back_def run_simps
  new_bot_def DFlowProvider_def RaydiumProvider_def JupiterProvider_def OKXDexProvider_def
  PROTOCOL_MINTS_def truthy_def no_okx_def env_ok_def wallet_a_def wallet_b_def

lemma night_pass:
  "iteration env_ok state_night =
     state_night\<lparr>dailyTxCount := 0, lastResetDate := Some 20000, now := 1727982600000,
                   trace := [Log_reset 20000 57, Log_rest, Sleep 600000]\<rparr>"
  by (simp add: loop_simps state_night_def cong: let_weak_cong)

lemma late_pass:
  "iteration env_ok state_late =
     state_late\<lparr>dailyTxCount := 7, now := 1728058160000, tick := 7,
       trace :=
         [Log_forward ''7xKXtg'' ''JitoSOL'' (1 / 10000),
          Swap_begin 1728057540000 ''7xKXtg'' ''So11111111111111111111111111111111111111112''
            ''J1toso1uCk3RLmjorhTtrVwY9HJ7X8V9yYac6Y7kGCPn'' (1 / 10000),
          Log_try ''7xKXtg'' ''DFlow'',
          Provider_call 1728057540000 ''DFlow'' ''So11111111111111111111111111111111111111112''
            ''J1toso1uCk3RLmjorhTtrVwY9HJ7X8V9yYac6Y7kGCPn'' 100000
            ''7xKXtg2CW87d97TXJSDpbD5jBkheTqA83TZRuJosgAsU'' (Sent ''tx''),
          Log_ok ''7xKXtg'' ''DFlow'' 6 ''tx'',
          Log_dwell ''7xKXtg'' 120,
          Sleep 120000,
          Swap_begin 1728057660000 ''7xKXtg'' ''J1toso1uCk3RLmjorhTtrVwY9HJ7X8V9yYac6Y7kGCPn''
            ''So11111111111111111111111111111111111111112'' (199 / 2000000),
          Log_try ''7xKXtg'' ''DFlow'',
          Provider_call 1728057660000 ''DFlow'' ''J1toso1uCk3RLmjorhTtrVwY9HJ7X8V9yYac6Y7kGCPn''
            ''So11111111111111111111111111111111111111112'' 99500
            ''7xKXtg2CW87d97TXJSDpbD5jBkheTqA83TZRuJosgAsU'' (Sent ''tx''),
          Log_ok ''7xKXtg'' ''DFlow'' 7 ''tx'',
          Sleep 20000,
          Log_round_end 7 480,
          Sleep 480000]\<rparr>"
  by (simp add: loop_simps state_late_def cong: let_weak_cong)




subsection \<open>The daily counter\<close>

text \<open>
  C3. The counter grows by one exactly when \<^verbatim>\<open>executeSwap\<close> ends with an accepted
  broadcast and stays as it is when every provider failed. \<^verbatim>\<open>resetDailyCounter\<close> sets it
  to 0 and remembers the date when the date of the zone differs from the remembered one,
  and changes nothing when it is the same date. Over a whole pass of the loop the counter
  is its value after that reset plus the number of accepted broadcasts of the pass, so it
  does not decrease while the date stays the same.
\<close>

theorem dailyTxCount_changes:
  "(executeSwap e ctx from to amount s = (ok, s') \<longrightarrow>
       dailyTxCount s' = dailyTxCount s + (if ok then 1 else 0)
     \<and> submissions (trace s') = submissions (trace s) + (if ok then 1 else 0)
     \<and> lastResetDate s' = lastResetDate s)
   \<and> (lastResetDate s \<noteq> Some (zone_date (now s)) \<longrightarrow>
         dailyTxCount (resetDailyCounter s) = 0
       \<and> lastResetDate (resetDailyCounter s) = Some (zone_date (now s)))
   \<and> (lastResetDate s = Some (zone_date (now s)) \<longrightarrow> resetDailyCounter s = s)
   \<and> dailyTxCount (iteration e s) =
         dailyTxCount (resetDailyCounter s)
         + int (submissions (trace (iteration e s)) - submissions (trace s))
   \<and> lastResetDate (iteration e s) = Some (zone_date (now s))
   \<and> (lastResetDate s = Some (zone_date (now s)) \<longrightarrow> dailyTxCount s \<le> dailyTxCount (iteration e s))"
proof (intro conjI impI)
  assume "executeSwap e ctx from to amount s = (ok, s')"
  from executeSwap_effect[OF this]
  show "dailyTxCount s' = dailyTxCount s + (if ok then 1 else 0)"
    and "submissions (trace s') = submissions (trace s) + (if ok then 1 else 0)"
    and "lastResetDate s' = lastResetDate s"
    by simp_all
next
  assume "lastResetDate s \<noteq> Some (zone_date (now s))"
  then show "dailyTxCount (resetDailyCounter s) = 0"
    by (simp add: resetDailyCounter_count)
next
  show "lastResetDate (resetDailyCounter s) = Some (zone_date (now s))"
    using resetDailyCounter_effect[of s] by simp
next
  assume "lastResetDate s = Some (zone_date (now s))"
  then show "resetDailyCounter s = s"
    by (simp add: resetDailyCounter_def Let_def)
next
  show "dailyTxCount (iteration e s) =
         dailyTxCount (resetDailyCounter s)
         + int (submissions (trace (iteration e s)) - submissions (trace s))"
    using iteration_count[of e s] by simp
next
  show "lastResetDate (iteration e s) = Some (zone_date (now s))"
    using iteration_count[of e s] by simp
next
  assume "lastResetDate s = Some (zone_date (now s))"
  then show "dailyTxCount s \<le> dailyTxCount (iteration e s)"
    using iteration_count[of e s] by (simp add: resetDailyCounter_count)
qed

lemma abc_counts:
  "dailyTxCount state_abc = 5" "lastResetDate state_abc = Some 20000"
  "zone_date (now state_abc) = 20000" "zone_date (now state_night) = 20000"
  "lastResetDate state_night = Some 19999" "dailyTxCount state_night = 57"
  "submissions (trace state_abc) = 0"
  by (simp_all add: state_abc_def state_night_def new_bot_def zone_date_def)

theorem dailyTxCount_changes_witness:
  "dailyTxCount (snd (executeSwap env_abc wallet_a ''SOL'' ''mSOL'' (1 / 2000) state_abc)) = 6
   \<and> submissions (trace (snd (executeSwap env_abc wallet_a ''SOL'' ''mSOL'' (1 / 2000) state_abc))) = 1
   \<and> resetDailyCounter state_abc = state_abc
   \<and> dailyTxCount state_night = 57
   \<and> dailyTxCount (resetDailyCounter state_night) = 0
   \<and> lastResetDate (resetDailyCounter state_night) = Some 20000"
  using dailyTxCount_changes [of env_abc wallet_a "''SOL''" "''mSOL''" "1 / 2000" state_abc
      True "snd (executeSwap env_abc wallet_a ''SOL'' ''mSOL'' (1 / 2000) state_abc)"]
    dailyTxCount_changes [of env_abc wallet_a "''SOL''" "''mSOL''" "1 / 2000" state_night
      True "snd (executeSwap env_abc wallet_a ''SOL'' ''mSOL'' (1 / 2000) state_night)"]
  by (simp add: abc_run abc_counts)

subsection \<open>Who writes the counter\<close>

text \<open>
  C5, as the claim states it, fails: \<^verbatim>\<open>executeSwap\<close> itself adds one to the counter. Here
  the counter is 5 before a successful swap and 6 after it.
\<close>

theorem executeSwap_writes_counter:
  "dailyTxCount state_abc = 5
   \<and> dailyTxCount (snd (executeSwap env_abc wallet_a ''SOL'' ''mSOL'' (1 / 2000) state_abc)) = 6"
  by (simp add: abc_run abc_counts)

text \<open>
  C5, amended. \<^verbatim>\<open>executeSwap\<close> returns a boolean and writes the session state in one
  place only: it adds one to the counter when a broadcast was accepted. It leaves the
  counter alone when it fails, and never touches the reset date, the wallets or the
  providers. The loop body writes the counter nowhere else: over the visit of a wallet the
  counter grows by the number of accepted broadcasts.
\<close>

theorem executeSwap_frame:
  "(executeSwap e ctx from to amount s = (ok, s') \<longrightarrow>
       dailyTxCount s' = (if ok then dailyTxCount s + 1 else dailyTxCount s)
     \<and> lastResetDate s' = lastResetDate s
     \<and> wallets s' = wallets s
     \<and> providers s' = providers s)
   \<and> dailyTxCount (visit_wallet e w s) =
         dailyTxCount s + int (submissions (trace (visit_wallet e w s)) - submissions (trace s))
   \<and> lastResetDate (visit_wallet e w s) = lastResetDate s"
proof (intro conjI impI)
  assume "executeSwap e ctx from to amount s = (ok, s')"
  from executeSwap_effect[OF this]
  show "dailyTxCount s' = (if ok then dailyTxCount s + 1 else dailyTxCount s)"
    and "lastResetDate s' = lastResetDate s" and "wallets s' = wallets s"
    and "providers s' = providers s"
    by simp_all
next
  show "dailyTxCount (visit_wallet e w s) =
         dailyTxCount s + int (submissions (trace (visit_wallet e w s)) - submissions (trace s))"
    using visit_wallet_frame[of e w s] by simp
next
  show "lastResetDate (visit_wallet e w s) = lastResetDate s"
    using visit_wallet_frame[of e w s] by simp
qed

theorem executeSwap_frame_witness:
  "fst (executeSwap env_abc wallet_a ''SOL'' ''mSOL'' (1 / 2000) state_abc)
   \<and> dailyTxCount (snd (executeSwap env_abc wallet_a ''SOL'' ''mSOL'' (1 / 2000) state_abc))
       = dailyTxCount state_abc + 1
   \<and> lastResetDate (snd (executeSwap env_abc wallet_a ''SOL'' ''mSOL'' (1 / 2000) state_abc))
       = Some 20000"
  using executeSwap_frame [of env_abc wallet_a "''SOL''" "''mSOL''" "1 / 2000" state_abc
      True "snd (executeSwap env_abc wallet_a ''SOL'' ''mSOL'' (1 / 2000) state_abc)" wallet_a]
  by (simp add: abc_run abc_counts)

subsection \<open>The trading window\<close>

text \<open>
  C6, as the claim states it, fails: the window is read once, at the start of a round. A
  round begun at 23:59 with the counter at 5 calls a provider at 23:59 and, after the
  dwell of two minutes, again at 00:01 of the next day.
\<close>

lemma late_count: "dailyTxCount state_late = 5"
  by (simp add: state_late_def new_bot_def)

theorem attempt_outside_window:
  "map zone_hour (call_times (trace (iteration env_ok state_late))) = [23, 0]
   \<and> dailyTxCount state_late = 5"
  by (simp add: late_pass zone_hour_def late_count)

text \<open>
  C6, amended. No round is begun while the hour of the zone, read at the start of the
  pass, is outside 8 to 24, whatever the counter: such a pass calls no provider, requests
  no swap and sleeps ten minutes. A pass that does call a provider began inside the
  window. The swaps of a round already begun are not checked against the window again.
\<close>

theorem no_round_outside_window:
  "(\<not> isWorkTime s \<longrightarrow>
       call_times (trace (iteration e s)) = call_times (trace s)
     \<and> swaps (trace (iteration e s)) = swaps (trace s)
     \<and> now (iteration e s) = now s + 600000)
   \<and> (call_times (trace (iteration e s)) \<noteq> call_times (trace s) \<longrightarrow>
        8 \<le> zone_hour (now s) \<and> zone_hour (now s) < 24)"
proof (intro conjI impI)
  assume "\<not> isWorkTime s"
  then have "\<not> isWorkTime s \<or> 120 \<le> dailyTxCount (resetDailyCounter s)" by simp
  from iteration_gated[OF this, of e]
  show "call_times (trace (iteration e s)) = call_times (trace s)"
    and "swaps (trace (iteration e s)) = swaps (trace s)"
    and "now (iteration e s) = now s + 600000"
    by simp_all
next
  assume c: "call_times (trace (iteration e s)) \<noteq> call_times (trace s)"
  have "isWorkTime s"
  proof (rule ccontr)
    assume "\<not> isWorkTime s"
    then have "\<not> isWorkTime s \<or> 120 \<le> dailyTxCount (resetDailyCounter s)" by simp
    from iteration_gated[OF this, of e] c show False by simp
  qed
  then show "8 \<le> zone_hour (now s)" and "zone_hour (now s) < 24"
    by (simp_all add: isWorkTime_def)
qed

lemma night_facts:
  "zone_hour (now state_night) = 3" "isWorkTime state_night = False"
  "call_times (trace state_night) = []" "now state_night = 1727982000000"
  "zone_hour (now state_late) = 23" "call_times (trace state_late) = []"
  "now state_late = 1728057540000" "swaps (trace state_night) = []"
  by (simp_all add: state_night_def state_late_def new_bot_def zone_hour_def isWorkTime_def)

theorem no_round_outside_window_witness:
  "zone_hour (now state_night) = 3
   \<and> dailyTxCount state_night = 57
   \<and> call_times (trace (iteration env_ok state_night)) = []
   \<and> now (iteration env_ok state_night) = now state_night + 600000
   \<and> call_times (trace (iteration env_ok state_late)) = [1728057540000, 1728057660000]
   \<and> zone_hour (now state_late) = 23"
  using no_round_outside_window [of state_night env_ok]
    no_round_outside_window [of state_late env_ok]
  by (simp add: night_facts abc_counts late_pass night_pass zone_hour_def)


subsection \<open>The two legs\<close>

lemmas visit_simps = visit_wallet_def forward_swap_def sell_back_def run_simps
  new_bot_def DFlowProvider_def RaydiumProvider_def JupiterProvider_def OKXDexProvider_def
  PROTOCOL_MINTS_def truthy_def no_okx_def wallet_a_def wallet_b_def
  err_timeout_def err_rejected_def


lemma label_a: "label wallet_a = ''7xKXtg''" "label wallet_b = ''9WzDXw''"
  by (simp_all add: label_def wallet_a_def wallet_b_def)


lemma visit_wallet_swaps_length:
  "length (swaps (trace s)) < length (swaps (trace (visit_wallet e w s)))
   \<and> length (swaps (trace (visit_wallet e w s))) \<le> length (swaps (trace s)) + 2"
proof -
  obtain target amount ok s2 where f: "forward_swap e w s = (target, amount, ok, s2)"
    by (cases "forward_swap e w s") auto
  from visit_wallet_effect[OF f] show ?thesis by auto
qed

lemma for_wallets_swaps_length:
  "length (swaps (trace (for_wallets e ws s))) \<le> length (swaps (trace s)) + 2 * length ws"
proof (induction ws arbitrary: s)
  case Nil
  show ?case by simp
next
  case (Cons w ws)
  show ?case using Cons.IH[of "visit_wallet e w s"] visit_wallet_swaps_length[of s e w] by simp
qed

text \<open>
  C8. When the forward swap of a wallet fails, no swap back is requested for it. When it
  succeeds, exactly one swap back is requested, whether that one succeeds or fails. Either
  way the loop goes on: the forward swap of every wallet of the round is requested, in
  the order of the round, and a round of \<open>n\<close> wallets requests at most \<open>2 n\<close> swaps.
\<close>

theorem hedge_best_effort:
  "(case forward_swap e w s of (target, amount, ok, s2) \<Rightarrow>
      (\<not> ok \<longrightarrow> swaps (trace (visit_wallet e w s)) =
                  swaps (trace s) @ [(label w, MINTS_SOL, mint target, amount)])
    \<and> (ok \<longrightarrow> length (swaps (trace (visit_wallet e w s))) = length (swaps (trace s)) + 2))
   \<and> forward_labels (trace (for_wallets e ws s)) = forward_labels (trace s) @ map label ws
   \<and> length (swaps (trace (for_wallets e ws s))) \<le> length (swaps (trace s)) + 2 * length ws"
proof -
  obtain target amount ok s2 where f: "forward_swap e w s = (target, amount, ok, s2)"
    by (cases "forward_swap e w s") auto
  from visit_wallet_effect[OF f] have
    "(case forward_swap e w s of (target, amount, ok, s2) \<Rightarrow>
      (\<not> ok \<longrightarrow> swaps (trace (visit_wallet e w s)) =
                  swaps (trace s) @ [(label w, MINTS_SOL, mint target, amount)])
    \<and> (ok \<longrightarrow> length (swaps (trace (visit_wallet e w s))) = length (swaps (trace s)) + 2))"
    unfolding f by auto
  with for_wallets_forward[of e ws s] for_wallets_swaps_length[of e ws s]
  show ?thesis by simp
qed

lemma down_119:
  "fst (snd (snd (forward_swap env_down wallet_a state_119))) = False"
  "swaps (trace (visit_wallet env_down wallet_a state_119)) =
     [(''7xKXtg'', ''So11111111111111111111111111111111111111112'',
       ''J1toso1uCk3RLmjorhTtrVwY9HJ7X8V9yYac6Y7kGCPn'', 1 / 10000)]"
  "invoked (trace (visit_wallet env_down wallet_a state_119)) = [''DFlow'', ''Raydium'', ''Jupiter'']"
  by (simp_all add: visit_simps state_119_def env_down_def cong: let_weak_cong)

lemma hedge_fails_119:
  "fst (snd (snd (forward_swap env_hedge_fails wallet_a state_119))) = True"
  "swaps (trace (visit_wallet env_hedge_fails wallet_a state_119)) =
     [(''7xKXtg'', ''So11111111111111111111111111111111111111112'',
       ''J1toso1uCk3RLmjorhTtrVwY9HJ7X8V9yYac6Y7kGCPn'', 1 / 10000),
      (''7xKXtg'', ''J1toso1uCk3RLmjorhTtrVwY9HJ7X8V9yYac6Y7kGCPn'',
       ''So11111111111111111111111111111111111111112'', 199 / 2000000)]"
  "invoked (trace (visit_wallet env_hedge_fails wallet_a state_119)) =
     [''DFlow'', ''DFlow'', ''Raydium'', ''Jupiter'']"
  "dailyTxCount (visit_wallet env_hedge_fails wallet_a state_119) = 120"
  by (simp_all add: visit_simps state_119_def env_hedge_fails_def cong: let_weak_cong)

lemma down_round:
  "forward_labels (trace (for_wallets env_down [wallet_a, wallet_b] state_119)) = [''7xKXtg'', ''9WzDXw'']"
  "swaps (trace (for_wallets env_down [wallet_a, wallet_b] state_119)) =
     [(''7xKXtg'', ''So11111111111111111111111111111111111111112'',
       ''J1toso1uCk3RLmjorhTtrVwY9HJ7X8V9yYac6Y7kGCPn'', 1 / 10000),
      (''9WzDXw'', ''So11111111111111111111111111111111111111112'',
       ''J1toso1uCk3RLmjorhTtrVwY9HJ7X8V9yYac6Y7kGCPn'', 1 / 10000)]"
  by (simp_all add: visit_simps state_119_def env_down_def forward_labels_def cong: let_weak_cong)

theorem hedge_best_effort_witness:
  "fst (snd (snd (forward_swap env_down wallet_a state_119))) = False
   \<and> length (swaps (trace (visit_wallet env_down wallet_a state_119))) = 1
   \<and> fst (snd (snd (forward_swap env_hedge_fails wallet_a state_119))) = True
   \<and> length (swaps (trace (visit_wallet env_hedge_fails wallet_a state_119))) = 2
   \<and> dailyTxCount (visit_wallet env_hedge_fails wallet_a state_119) = 120
   \<and> forward_labels (trace (for_wallets env_down [wallet_a, wallet_b] state_119))
       = [''7xKXtg'', ''9WzDXw'']
   \<and> length (swaps (trace (for_wallets env_down [wallet_a, wallet_b] state_119))) = 2"
  using hedge_best_effort [of env_down wallet_a state_119 "[wallet_a, wallet_b]"]
    hedge_best_effort [of env_hedge_fails wallet_a state_119 "[]"]
  by (simp add: down_119 hedge_fails_119 down_round del: for_wallets.simps)

subsection \<open>The order of a round\<close>

lemma iteration_wallets: "wallets (iteration e s) = wallets s"
  using iteration_count[of e s] by simp

lemma start_wallets: "wallets (start n e s) = wallets s"
  by (induction n arbitrary: s) (simp_all add: iteration_wallets)

lemma iteration_forward:
  "isWorkTime s \<Longrightarrow> dailyTxCount (resetDailyCounter s) < 120 \<Longrightarrow>
   mset (forward_labels (trace (iteration e s)))
     = mset (forward_labels (trace s)) + mset (map label (wallets s))"
proof -
  assume "isWorkTime s" "dailyTxCount (resetDailyCounter s) < 120"
  from iteration_round[OF this, of e] obtain shuffled s0 where r:
    "mset shuffled = mset (wallets s)"
    "swaps (trace s0) = swaps (trace s)"
    "swaps (trace (iteration e s)) = swaps (trace (for_wallets e shuffled s0))"
    by blast
  have "forward_labels (trace (iteration e s)) = forward_labels (trace (for_wallets e shuffled s0))"
    using r(3) by (simp add: forward_labels_def)
  also have "\<dots> = forward_labels (trace s0) @ map label shuffled"
    by (rule for_wallets_forward)
  also have "forward_labels (trace s0) = forward_labels (trace s)"
    using r(2) by (simp add: forward_labels_def)
  finally show ?thesis using r(1) by (metis mset_append mset_map)
qed

text \<open>
  C9. The shuffle of a round returns the wallets of the pool, each as often as the pool
  holds it: none is dropped and none is added, whatever the comparator answers. The pool
  itself is left as it was by every pass of the loop, and a round that is begun requests
  the forward swap of each wallet of the pool exactly once.
\<close>

theorem shuffle_is_permutation:
  "mset (fst (shuffle e ws t)) = mset ws
   \<and> length (fst (shuffle e ws t)) = length ws
   \<and> set (fst (shuffle e ws t)) = set ws
   \<and> distinct (fst (shuffle e ws t)) = distinct ws
   \<and> wallets (iteration e s) = wallets s
   \<and> wallets (start n e s) = wallets s
   \<and> (isWorkTime s \<and> dailyTxCount (resetDailyCounter s) < 120 \<longrightarrow>
        mset (forward_labels (trace (iteration e s)))
          = mset (forward_labels (trace s)) + mset (map label (wallets s)))"
proof (intro conjI impI)
  show m: "mset (fst (shuffle e ws t)) = mset ws" by (rule shuffle_mset)
  show "length (fst (shuffle e ws t)) = length ws" using m by (metis size_mset)
  show "set (fst (shuffle e ws t)) = set ws" using m by (metis set_mset_mset)
  show "distinct (fst (shuffle e ws t)) = distinct ws" using m by (metis mset_eq_imp_distinct_iff)
  show "wallets (iteration e s) = wallets s" by (rule iteration_wallets)
  show "wallets (start n e s) = wallets s" by (rule start_wallets)
next
  assume "isWorkTime s \<and> dailyTxCount (resetDailyCounter s) < 120"
  then show "mset (forward_labels (trace (iteration e s)))
          = mset (forward_labels (trace s)) + mset (map label (wallets s))"
    using iteration_forward[of s e] by simp
qed

lemma shuffle_two:
  "shuffle env_ok [wallet_a, wallet_b] 0 = ([wallet_b, wallet_a], 1)"
  by (simp add: shuffle_def env_ok_def)

lemma late_facts:
  "isWorkTime state_late" "dailyTxCount (resetDailyCounter state_late) = 5"
  "forward_labels (trace state_late) = []" "wallets state_late = [wallet_a]"
  by (simp_all add: state_late_def new_bot_def isWorkTime_def zone_hour_def
      resetDailyCounter_def zone_date_def forward_labels_def)

theorem shuffle_is_permutation_witness:
  "fst (shuffle env_ok [wallet_a, wallet_b] 0) = [wallet_b, wallet_a]
   \<and> mset [wallet_b, wallet_a] = mset [wallet_a, wallet_b]
   \<and> isWorkTime state_late \<and> dailyTxCount (resetDailyCounter state_late) = 5
   \<and> forward_labels (trace (iteration env_ok state_late)) = [label wallet_a]"
  using shuffle_is_permutation [of env_ok "[wallet_a, wallet_b]" 0 state_late 1]
  by (simp add: shuffle_two late_facts late_pass forward_labels_def MINTS_SOL_def label_a)

subsection \<open>The daily cap\<close>





subsection \<open>A swap that no provider serves\<close>

lemma try_providers_last:
  "try_providers e ctx f t n ps s = (False, s') \<Longrightarrow>
   trace s' \<noteq> [] \<and> last (trace s') = Log_all_failed (label ctx)"
proof (induction ps arbitrary: s)
  case Nil
  then show ?case by (auto simp: emit_def)
next
  case (Cons p ps)
  show ?case
  proof (cases "available p")
    case False
    with Cons show ?thesis by simp
  next
    case True
    show ?thesis
    proof (cases "answer e (tick s) (name p)")
      case (Sent txid)
      with True Cons.prems show ?thesis by (simp add: Let_def)
    next
      case (Threw st err)
      with True Cons.prems Cons.IH show ?thesis by (simp add: Let_def)
    qed
  qed
qed

text \<open>
  C4, as the claim states it, fails: what \<^verbatim>\<open>executeSwap\<close> returns is the boolean
  \<^verbatim>\<open>false\<close>, which carries no reasons. Two swaps that fail for different reasons return
  the same value; the reasons are only printed.
\<close>

theorem failure_value_has_no_reasons:
  "fst (executeSwap env_down wallet_a ''SOL'' ''mSOL'' (1 / 2000) state_abc) = False
   \<and> fst (executeSwap env_refused wallet_a ''SOL'' ''mSOL'' (1 / 2000) state_abc) = False
   \<and> failures (trace (snd (executeSwap env_down wallet_a ''SOL'' ''mSOL'' (1 / 2000) state_abc)))
       = [(''A'', ''timeout of 15000ms exceeded''), (''B'', ''timeout of 15000ms exceeded''),
          (''C'', ''timeout of 15000ms exceeded'')]
   \<and> failures (trace (snd (executeSwap env_refused wallet_a ''SOL'' ''mSOL'' (1 / 2000) state_abc)))
       = [(''A'', ''no route found''), (''B'', ''no route found''), (''C'', ''no route found'')]"
  by (simp add: run_simps state_abc_def env_down_def env_refused_def chain_abc_def wallet_a_def
      err_timeout_def err_rejected_def cong: let_weak_cong)

text \<open>
  C4, amended. When every available provider of the chain throws, and also when none is
  available, \<^verbatim>\<open>executeSwap\<close> returns \<^verbatim>\<open>false\<close>: no error leaves it. It has then called
  every available provider once, in order, has printed one failure line with the reason
  for each of them, in order, and last the line that all providers failed; the counter is
  unchanged. The returned value itself carries no reasons.
\<close>

theorem executeSwap_all_failed:
  "(\<forall>i < length (filter available (providers s)). \<exists>st err.
       answer e (tick s + i) (name (filter available (providers s) ! i)) = Threw st err) \<Longrightarrow>
   fst (executeSwap e ctx from to amount s) = False
   \<and> invoked (trace (snd (executeSwap e ctx from to amount s))) =
       invoked (trace s) @ map name (filter available (providers s))
   \<and> failures (trace (snd (executeSwap e ctx from to amount s))) =
       failures (trace s) @
         map (\<lambda>i. (name (filter available (providers s) ! i),
                    reason_of (answer e (tick s + i) (name (filter available (providers s) ! i)))))
           [0..<length (filter available (providers s))]
   \<and> last (trace (snd (executeSwap e ctx from to amount s))) = Log_all_failed (label ctx)
   \<and> dailyTxCount (snd (executeSwap e ctx from to amount s)) = dailyTxCount s"
proof -
  assume all: "\<forall>i < length (filter available (providers s)). \<exists>st err.
       answer e (tick s + i) (name (filter available (providers s) ! i)) = Threw st err"
  obtain ok s' where run: "executeSwap e ctx from to amount s = (ok, s')"
    by (cases "executeSwap e ctx from to amount s")
  define s0 where "s0 = emit [Swap_begin (now s) (label ctx) from to amount] s"
  define chain where "chain = filter available (providers s)"
  from run have tp: "try_providers e ctx from to \<lfloor>fl e (amount * LAMPORTS_PER_SOL)\<rfloor> (providers s) s0 = (ok, s')"
    by (simp add: executeSwap_def s0_def Let_def)
  have s0: "tick s0 = tick s" "invoked (trace s0) = invoked (trace s)"
    "failures (trace s0) = failures (trace s)"
    by (simp_all add: s0_def emit_def trace_append)
  from try_providers_chain[OF tp] obtain m where m:
    "m \<le> length chain"
    "ok \<longrightarrow> m < length chain \<and> (\<exists>txid. answer e (tick s0 + m) (name (chain ! m)) = Sent txid)"
    "\<not> ok \<longrightarrow> m = length chain"
    "invoked (trace s') = invoked (trace s0) @ map name (take (if ok then Suc m else m) chain)"
    "failures (trace s') = failures (trace s0) @
          map (\<lambda>i. (name (chain ! i), reason_of (answer e (tick s0 + i) (name (chain ! i))))) [0..<m]"
    unfolding chain_def by blast
  have nok: "\<not> ok"
  proof
    assume ok
    with m(2) obtain txid where "m < length chain" "answer e (tick s0 + m) (name (chain ! m)) = Sent txid"
      by blast
    with all s0(1) show False unfolding chain_def by fastforce
  qed
  with m(3) have ml: "m = length chain" by simp
  from nok tp have "try_providers e ctx from to \<lfloor>fl e (amount * LAMPORTS_PER_SOL)\<rfloor> (providers s) s0 = (False, s')"
    by simp
  from try_providers_last[OF this] have l: "last (trace s') = Log_all_failed (label ctx)" by simp
  from executeSwap_effect[OF run] nok have c: "dailyTxCount s' = dailyTxCount s" by simp
  show ?thesis
    unfolding run using nok m(4,5) ml l c s0 by (simp add: chain_def del: upt_Suc)
qed

lemma down_abc:
  "filter available (providers state_abc) = chain_abc" "tick state_abc = 0"
  "invoked (trace state_abc) = []" "failures (trace state_abc) = []"
  "answer env_down t p = Threw In_getSwap err_timeout"
  "filter available (providers state_unavailable) = []"
  "invoked (trace state_unavailable) = []" "failures (trace state_unavailable) = []"
  "length chain_abc = 3"
  by (simp_all add: state_abc_def state_unavailable_def chain_abc_def env_down_def)

theorem executeSwap_all_failed_witness:
  "length (filter available (providers state_abc)) = 3
   \<and> answer env_down 1 ''B'' = Threw In_getSwap err_timeout
   \<and> fst (executeSwap env_down wallet_a ''SOL'' ''mSOL'' (1 / 2000) state_abc) = False
   \<and> invoked (trace (snd (executeSwap env_down wallet_a ''SOL'' ''mSOL'' (1 / 2000) state_abc)))
       = [''A'', ''B'', ''C'']
   \<and> last (trace (snd (executeSwap env_down wallet_a ''SOL'' ''mSOL'' (1 / 2000) state_abc)))
       = Log_all_failed ''7xKXtg''
   \<and> fst (executeSwap env_down wallet_a ''SOL'' ''mSOL'' (1 / 2000) state_unavailable) = False
   \<and> invoked (trace (snd (executeSwap env_down wallet_a ''SOL'' ''mSOL'' (1 / 2000) state_unavailable)))
       = []"
  using executeSwap_all_failed [of state_abc env_down wallet_a "''SOL''" "''mSOL''" "1 / 2000"]
    executeSwap_all_failed [of state_unavailable env_down wallet_a "''SOL''" "''mSOL''" "1 / 2000"]
  by (simp add: down_abc label_a) (simp add: chain_abc_def)


subsection \<open>Retrying\<close>

lemma lower_upper: "toLowerCase ''read ECONNRESET'' = ''read econnreset''"
  by code_simp

lemma network_errors:
  "is_network_error err_timeout" "is_network_error err_reset" "\<not> is_network_error err_rejected"
  by code_simp+

lemma loop_again:
  "i < n \<Longrightarrow> operation i = Inl err \<Longrightarrow> is_network_error err \<Longrightarrow>
   fetchWithRetry_loop operation n i lastError slept =
     fetchWithRetry_loop operation n (Suc i) (Some err) (slept @ [2000 * (int i + 1)])"
  by (subst fetchWithRetry_loop.simps) simp

lemma loop_returns:
  "i < n \<Longrightarrow> operation i = Inr v \<Longrightarrow>
   fetchWithRetry_loop operation n i lastError slept =
     \<lparr>outcome = Inr v, calls = Suc i, delays = slept\<rparr>"
  by (subst fetchWithRetry_loop.simps) simp

lemma loop_rethrows:
  "i < n \<Longrightarrow> operation i = Inl err \<Longrightarrow> \<not> is_network_error err \<Longrightarrow>
   fetchWithRetry_loop operation n i lastError slept =
     \<lparr>outcome = Inl (Some err), calls = Suc i, delays = slept\<rparr>"
  by (subst fetchWithRetry_loop.simps) simp

lemma loop_exhausted:
  "\<not> i < n \<Longrightarrow>
   fetchWithRetry_loop operation n i lastError slept =
     \<lparr>outcome = Inl lastError, calls = i, delays = slept\<rparr>"
  by (subst fetchWithRetry_loop.simps) simp

text \<open>After \<open>k\<close> failures of the network kind the loop stands at \<open>i = k\<close>.\<close>

lemma loop_after_failures:
  "k \<le> n \<Longrightarrow> (\<forall>j<k. \<exists>err. operation j = Inl err \<and> is_network_error err) \<Longrightarrow>
   fetchWithRetry operation n =
     fetchWithRetry_loop operation n k
       (if k = 0 then None else (case operation (k - 1) of Inl err \<Rightarrow> Some err | Inr v \<Rightarrow> None))
       (map (\<lambda>j. 2000 * (int j + 1)) [0..<k])"
proof (induction k)
  case 0
  show ?case by (simp add: fetchWithRetry_def)
next
  case (Suc k)
  then obtain err where err: "operation k = Inl err" "is_network_error err" by auto
  from Suc have "fetchWithRetry operation n =
     fetchWithRetry_loop operation n k
       (if k = 0 then None else (case operation (k - 1) of Inl err \<Rightarrow> Some err | Inr v \<Rightarrow> None))
       (map (\<lambda>j. 2000 * (int j + 1)) [0..<k])" by simp
  also have "\<dots> = fetchWithRetry_loop operation n (Suc k) (Some err)
       (map (\<lambda>j. 2000 * (int j + 1)) [0..<k] @ [2000 * (int k + 1)])"
    using Suc.prems(1) err by (intro loop_again) simp_all
  finally show ?case using err by simp
qed

lemma loop_delays_increase:
  "sorted_wrt (<) slept \<Longrightarrow> (\<forall>d \<in> set slept. d < 2000 * (int i + 1)) \<Longrightarrow>
   sorted_wrt (<) (delays (fetchWithRetry_loop operation n i lastError slept))"
proof (induction operation n i lastError slept rule: fetchWithRetry_loop.induct)
  case (1 operation maxRetries i lastError slept)
  show ?case
  proof (cases "i < maxRetries")
    case False
    with 1 show ?thesis by (simp add: loop_exhausted)
  next
    case True
    show ?thesis
    proof (cases "operation i")
      case (Inr v)
      with True 1 show ?thesis by (simp add: loop_returns)
    next
      case (Inl err)
      show ?thesis
      proof (cases "is_network_error err")
        case False
        with True Inl 1 show ?thesis by (simp add: loop_rethrows)
      next
        case net: True
        have "sorted_wrt (<) (slept @ [2000 * (int i + 1)])"
          using 1(2,3) by (simp add: sorted_wrt_append)
        moreover have "\<forall>d \<in> set (slept @ [2000 * (int i + 1)]). d < 2000 * (int (Suc i) + 1)"
          using 1(3) by auto
        ultimately have "sorted_wrt (<) (delays (fetchWithRetry_loop operation maxRetries (Suc i)
            (Some err) (slept @ [2000 * (int i + 1)])))"
          using 1(1)[OF True Inl net] by blast
        with True Inl net show ?thesis by (simp add: loop_again)
      qed
    qed
  qed
qed

lemma loop_calls:
  "i \<le> n \<Longrightarrow> calls (fetchWithRetry_loop operation n i lastError slept) \<le> n"
proof (induction operation n i lastError slept rule: fetchWithRetry_loop.induct)
  case (1 operation maxRetries i lastError slept)
  show ?case
  proof (cases "i < maxRetries")
    case False
    with 1 show ?thesis by (simp add: loop_exhausted)
  next
    case True
    show ?thesis
    proof (cases "operation i")
      case (Inr v)
      with True show ?thesis by (simp add: loop_returns)
    next
      case (Inl err)
      show ?thesis
      proof (cases "is_network_error err")
        case False
        with True Inl show ?thesis by (simp add: loop_rethrows)
      next
        case net: True
        from 1(1)[OF True Inl net] True
        have "calls (fetchWithRetry_loop operation maxRetries (Suc i) (Some err)
            (slept @ [2000 * (int i + 1)])) \<le> maxRetries" by simp
        with True Inl net show ?thesis by (simp add: loop_again)
      qed
    qed
  qed
qed

text \<open>
  C2, as the claim states it, fails on the executor that has a chain of providers: it
  does not retry. Provider A times out, an error \<^verbatim>\<open>fetchWithRetry\<close> would retry, and is
  called once; the swap goes on to B at once.
\<close>

theorem transient_error_not_retried:
  "is_network_error err_timeout
   \<and> answer env_abc 0 ''A'' = Threw In_getSwap err_timeout
   \<and> invoked (trace (snd (executeSwap env_abc wallet_a ''SOL'' ''mSOL'' (1 / 2000) state_abc)))
       = [''A'', ''B'', ''C'']"
  by (simp add: network_errors abc_run) (simp add: env_abc_def state_abc_def)

text \<open>
  C2, amended. Retrying exists in the single-provider script only. There
  \<^verbatim>\<open>fetchWithRetry\<close> calls the operation again after an error whose message names a
  socket, a timeout, a proxy, the network or a reset or refused connection, up to
  \<^verbatim>\<open>maxRetries\<close> calls in all (3 by default), sleeping 2000 times the number of the failed
  call before the next, so the delays increase strictly; any other error is thrown again
  at once, with no further call. Since that script has one provider, a request that
  exhausts its calls makes the swap fail. The executor with the chain of providers calls
  each provider at most once per swap, whatever the error.
\<close>

theorem retry_policy:
  "(k < maxRetries \<and> (\<forall>j<k. \<exists>err. operation j = Inl err \<and> is_network_error err)
      \<and> operation k = Inr v \<longrightarrow>
      fetchWithRetry operation maxRetries =
        \<lparr>outcome = Inr v, calls = Suc k, delays = map (\<lambda>j. 2000 * (int j + 1)) [0..<k]\<rparr>)
   \<and> (k < maxRetries \<and> (\<forall>j<k. \<exists>err. operation j = Inl err \<and> is_network_error err)
      \<and> operation k = Inl err \<and> \<not> is_network_error err \<longrightarrow>
      fetchWithRetry operation maxRetries =
        \<lparr>outcome = Inl (Some err), calls = Suc k, delays = map (\<lambda>j. 2000 * (int j + 1)) [0..<k]\<rparr>)
   \<and> ((\<forall>j<maxRetries. \<exists>err. operation j = Inl err \<and> is_network_error err)
      \<and> 0 < maxRetries \<and> operation (maxRetries - 1) = Inl err' \<longrightarrow>
      fetchWithRetry operation maxRetries =
        \<lparr>outcome = Inl (Some err'), calls = maxRetries,
         delays = map (\<lambda>j. 2000 * (int j + 1)) [0..<maxRetries]\<rparr>)
   \<and> sorted_wrt (<) (delays (fetchWithRetry operation maxRetries))
   \<and> calls (fetchWithRetry operation maxRetries) \<le> maxRetries
   \<and> ((\<forall>j<3. \<exists>err. quote_reply w j = Inl err \<and> is_network_error err) \<longrightarrow>
        ended (executeSwap_single w) = Some False \<and> quote_calls (executeSwap_single w) = 3
        \<and> swap_calls (executeSwap_single w) = 0
        \<and> slept_for (executeSwap_single w) = [2000, 4000, 6000])
   \<and> (executeSwap e ctx from to amount s = (ok, s') \<longrightarrow>
        (\<exists>n \<le> length (filter available (providers s)).
           invoked (trace s') =
             invoked (trace s) @ map name (take n (filter available (providers s)))))"
proof (intro conjI impI)
  assume a: "k < maxRetries \<and> (\<forall>j<k. \<exists>err. operation j = Inl err \<and> is_network_error err)
      \<and> operation k = Inr v"
  then have "fetchWithRetry operation maxRetries =
     fetchWithRetry_loop operation maxRetries k
       (if k = 0 then None else (case operation (k - 1) of Inl err \<Rightarrow> Some err | Inr v \<Rightarrow> None))
       (map (\<lambda>j. 2000 * (int j + 1)) [0..<k])"
    by (intro loop_after_failures) simp_all
  with a show "fetchWithRetry operation maxRetries =
        \<lparr>outcome = Inr v, calls = Suc k, delays = map (\<lambda>j. 2000 * (int j + 1)) [0..<k]\<rparr>"
    by (simp add: loop_returns)
next
  assume a: "k < maxRetries \<and> (\<forall>j<k. \<exists>err. operation j = Inl err \<and> is_network_error err)
      \<and> operation k = Inl err \<and> \<not> is_network_error err"
  then have "fetchWithRetry operation maxRetries =
     fetchWithRetry_loop operation maxRetries k
       (if k = 0 then None else (case operation (k - 1) of Inl err \<Rightarrow> Some err | Inr v \<Rightarrow> None))
       (map (\<lambda>j. 2000 * (int j + 1)) [0..<k])"
    by (intro loop_after_failures) simp_all
  with a show "fetchWithRetry operation maxRetries =
        \<lparr>outcome = Inl (Some err), calls = Suc k, delays = map (\<lambda>j. 2000 * (int j + 1)) [0..<k]\<rparr>"
    by (simp add: loop_rethrows)
next
  assume a: "(\<forall>j<maxRetries. \<exists>err. operation j = Inl err \<and> is_network_error err)
      \<and> 0 < maxRetries \<and> operation (maxRetries - 1) = Inl err'"
  then have "fetchWithRetry operation maxRetries =
     fetchWithRetry_loop operation maxRetries maxRetries
       (if maxRetries = 0 then None
        else (case operation (maxRetries - 1) of Inl err \<Rightarrow> Some err | Inr v \<Rightarrow> None))
       (map (\<lambda>j. 2000 * (int j + 1)) [0..<maxRetries])"
    by (intro loop_after_failures) simp_all
  with a show "fetchWithRetry operation maxRetries =
        \<lparr>outcome = Inl (Some err'), calls = maxRetries,
         delays = map (\<lambda>j. 2000 * (int j + 1)) [0..<maxRetries]\<rparr>"
    by (simp add: loop_exhausted)
next
  show "sorted_wrt (<) (delays (fetchWithRetry operation maxRetries))"
    unfolding fetchWithRetry_def by (rule loop_delays_increase) simp_all
next
  show "calls (fetchWithRetry operation maxRetries) \<le> maxRetries"
    unfolding fetchWithRetry_def by (rule loop_calls) simp
next
  assume a: "\<forall>j<3. \<exists>err. quote_reply w j = Inl err \<and> is_network_error err"
  have "(2::nat) < 3" by simp
  with a obtain err where e: "quote_reply w 2 = Inl err" by blast
  from a have "fetchWithRetry (quote_reply w) 3 =
     fetchWithRetry_loop (quote_reply w) 3 3
       (if (3::nat) = 0 then None
        else (case quote_reply w (3 - 1) of Inl err \<Rightarrow> Some err | Inr v \<Rightarrow> None))
       (map (\<lambda>j. 2000 * (int j + 1)) [0..<3])"
    by (intro loop_after_failures) simp_all
  with e have q: "fetchWithRetry (quote_reply w) 3 =
      \<lparr>outcome = Inl (Some err), calls = 3, delays = [2000, 4000, 6000]\<rparr>"
    by (simp add: loop_exhausted upt_rec)
  show "ended (executeSwap_single w) = Some False" and "quote_calls (executeSwap_single w) = 3"
    and "swap_calls (executeSwap_single w) = 0"
    and "slept_for (executeSwap_single w) = [2000, 4000, 6000]"
    by (simp_all add: executeSwap_single_def q catch_block_def)
next
  assume run: "executeSwap e ctx from to amount s = (ok, s')"
  define s0 where "s0 = emit [Swap_begin (now s) (label ctx) from to amount] s"
  from run have "try_providers e ctx from to \<lfloor>fl e (amount * LAMPORTS_PER_SOL)\<rfloor> (providers s) s0 = (ok, s')"
    by (simp add: executeSwap_def s0_def Let_def)
  from try_providers_chain[OF this] obtain m where m:
    "m \<le> length (filter available (providers s))"
    "ok \<longrightarrow> m < length (filter available (providers s))"
    "invoked (trace s') = invoked (trace s0) @
        map name (take (if ok then Suc m else m) (filter available (providers s)))"
    by blast
  have "invoked (trace s0) = invoked (trace s)" by (simp add: s0_def emit_def trace_append)
  with m show "\<exists>n \<le> length (filter available (providers s)).
           invoked (trace s') =
             invoked (trace s) @ map name (take n (filter available (providers s)))"
    by (intro exI[of _ "if ok then Suc m else m"]) auto
qed

lemma single_runs:
  "quote_reply replies_timeout j = Inl err_timeout"
  "quote_reply replies_rejected 0 = Inl err_rejected"
  "quote_reply replies_flaky 0 = Inl err_timeout"
  "quote_reply replies_flaky (Suc 0) = Inr ''quote''"
  by (simp_all add: replies_timeout_def replies_rejected_def replies_flaky_def)

theorem retry_policy_witness:
  "is_network_error err_timeout \<and> \<not> is_network_error err_rejected
   \<and> fetchWithRetry (quote_reply replies_flaky) 3 =
       \<lparr>outcome = Inr ''quote'', calls = 2, delays = [2000]\<rparr>
   \<and> fetchWithRetry (quote_reply replies_rejected) 3 =
       \<lparr>outcome = Inl (Some err_rejected), calls = 1, delays = []\<rparr>
   \<and> fetchWithRetry (quote_reply replies_timeout) 3 =
       \<lparr>outcome = Inl (Some err_timeout), calls = 3, delays = [2000, 4000, 6000]\<rparr>
   \<and> ended (executeSwap_single replies_timeout) = Some False
   \<and> slept_for (executeSwap_single replies_timeout) = [2000, 4000, 6000]
   \<and> invoked (trace (snd (executeSwap env_abc wallet_a ''SOL'' ''mSOL'' (1 / 2000) state_abc)))
       = [''A'', ''B'', ''C'']"
  using retry_policy [of 1 3 "quote_reply replies_flaky" "''quote''" err_rejected err_timeout
      replies_timeout env_abc wallet_a "''SOL''" "''mSOL''" "1 / 2000" state_abc True
      "snd (executeSwap env_abc wallet_a ''SOL'' ''mSOL'' (1 / 2000) state_abc)"]
    retry_policy [of 0 3 "quote_reply replies_rejected" "''quote''" err_rejected err_timeout
      replies_timeout env_abc wallet_a "''SOL''" "''mSOL''" "1 / 2000" state_abc True
      "snd (executeSwap env_abc wallet_a ''SOL'' ''mSOL'' (1 / 2000) state_abc)"]
    retry_policy [of 0 3 "quote_reply replies_timeout" "''quote''" err_rejected err_timeout
      replies_timeout env_abc wallet_a "''SOL''" "''mSOL''" "1 / 2000" state_abc True
      "snd (executeSwap env_abc wallet_a ''SOL'' ''mSOL'' (1 / 2000) state_abc)"]
  by (simp add: network_errors single_runs abc_run upt_rec)

end
